theory Spec2Isabelle
  imports Main
begin

section \<open>simple\_alerts.py: the alert engine\<close>

text \<open>
  A \<^verbatim>\<open>datetime\<close> is modelled as an integer number of microseconds (the resolution of
  Python's \<^verbatim>\<open>datetime\<close> and \<^verbatim>\<open>timedelta\<close>); all timestamps are naive. An event is the
  dictionary obtained by \<^verbatim>\<open>json.loads\<close>, reduced to the fields the loop reads:
  \<^verbatim>\<open>parse_ts(evt.get("ts", ""))\<close> (\<open>None\<close> when the text does not parse),
  \<^verbatim>\<open>evt.get("event")\<close>, \<^verbatim>\<open>evt.get("ip")\<close>, \<^verbatim>\<open>evt.get("user")\<close> and \<^verbatim>\<open>evt.get("cmd")\<close>.
\<close>

record event =
  ev_ts :: "int option"
  ev_event :: "string option"
  ev_ip :: "string option"
  ev_user :: "string option"
  ev_cmd :: "string option"

record alert_args =
  fail_threshold :: int
  window_min :: int
  alert_sudo :: bool

datatype alert =
    Ssh_bruteforce_suspected string nat int event
  | Ssh_success_after_failures string int int event
  | Sudo_used "string option" "string option" event

text \<open>The two dictionaries of \<^verbatim>\<open>main\<close>: the deque of failure times and the last failure
  time of each address.\<close>

record engine =
  fails_by_ip :: "string \<rightharpoonup> int list"
  recent_fail_ips :: "string \<rightharpoonup> int"

definition engine0 :: engine where
  "engine0 = \<lparr>fails_by_ip = Map.empty, recent_fail_ips = Map.empty\<rparr>"

text \<open>\<^verbatim>\<open>window = timedelta(minutes=args.window_min)\<close>\<close>

definition window :: "alert_args \<Rightarrow> int" where
  "window a = window_min a * 60000000"

text \<open>\<^verbatim>\<open>while dq and dq[0] < cutoff: dq.popleft()\<close>\<close>

fun popleft_old :: "int \<Rightarrow> int list \<Rightarrow> int list" where
  "popleft_old cutoff [] = []"
| "popleft_old cutoff (t # dq) = (if t < cutoff then popleft_old cutoff dq else t # dq)"

text \<open>\<^verbatim>\<open>for rip, rts in list(recent_fail_ips.items()): if rts < cutoff: del recent_fail_ips[rip]\<close>\<close>

definition expire :: "int \<Rightarrow> (string \<rightharpoonup> int) \<Rightarrow> (string \<rightharpoonup> int)" where
  "expire cutoff m = (\<lambda>rip. case m rip of None \<Rightarrow> None
                               | Some rts \<Rightarrow> if rts < cutoff then None else Some rts)"

text \<open>Truth value of \<^verbatim>\<open>ip\<close> in \<^verbatim>\<open>ev == "ssh_failed" and ip\<close>: a missing or empty address is false.\<close>

fun truthy :: "string option \<Rightarrow> bool" where
  "truthy None = False"
| "truthy (Some s) = (s \<noteq> [])"

text \<open>The \<^verbatim>\<open>if/elif/elif\<close> chain of the loop body. It returns the dictionaries as the branch
  leaves them and the alerts the branch appends to the output file.\<close>

definition on_ssh_failed :: "alert_args \<Rightarrow> int \<Rightarrow> event \<Rightarrow> string \<Rightarrow> engine \<Rightarrow> engine \<times> alert list" where
  "on_ssh_failed a ts evt ip st =
     (let dq = popleft_old (ts - window a)
                 ((case fails_by_ip st ip of None \<Rightarrow> [] | Some d \<Rightarrow> d) @ [ts]);
          st' = st\<lparr>fails_by_ip := (fails_by_ip st)(ip \<mapsto> dq),
                   recent_fail_ips := (recent_fail_ips st)(ip \<mapsto> ts)\<rparr>
      in (st', if int (length dq) = fail_threshold a
               then [Ssh_bruteforce_suspected ip (length dq) (window_min a) evt] else []))"

definition on_ssh_accepted :: "alert_args \<Rightarrow> int \<Rightarrow> event \<Rightarrow> string \<Rightarrow> engine \<Rightarrow> engine \<times> alert list" where
  "on_ssh_accepted a ts evt ip st =
     (case recent_fail_ips st ip of
        None \<Rightarrow> (st, [])
      | Some last_fail \<Rightarrow>
          if ts - last_fail \<le> window a
          then (st, [Ssh_success_after_failures ip last_fail (window_min a) evt])
          else (st, []))"

definition dispatch :: "alert_args \<Rightarrow> int \<Rightarrow> event \<Rightarrow> engine \<Rightarrow> engine \<times> alert list" where
  "dispatch a ts evt st =
     (if ev_event evt = Some ''ssh_failed'' \<and> truthy (ev_ip evt)
      then on_ssh_failed a ts evt (case ev_ip evt of Some ip \<Rightarrow> ip | None \<Rightarrow> []) st
      else if ev_event evt = Some ''ssh_accepted'' \<and> truthy (ev_ip evt)
      then on_ssh_accepted a ts evt (case ev_ip evt of Some ip \<Rightarrow> ip | None \<Rightarrow> []) st
      else if ev_event evt = Some ''sudo'' \<and> alert_sudo a
      then (st, [Sudo_used (ev_user evt) (ev_cmd evt) evt])
      else (st, []))"

text \<open>One pass of the \<^verbatim>\<open>for line in follow_file(...)\<close> body for a line that parsed to
  \<open>evt\<close>; \<open>now\<close> is what \<^verbatim>\<open>now_dt()\<close> returns when the timestamp is missing.\<close>

definition process_event :: "alert_args \<Rightarrow> int \<Rightarrow> event \<Rightarrow> engine \<Rightarrow> engine \<times> alert list" where
  "process_event a now evt st =
     (let ts = (case ev_ts evt of None \<Rightarrow> now | Some t \<Rightarrow> t);
          cutoff = ts - window a;
          (st', alerts) = dispatch a ts evt st
      in (st'\<lparr>recent_fail_ips := expire cutoff (recent_fail_ips st')\<rparr>, alerts))"

text \<open>The loop over the lines: an empty line or one that \<^verbatim>\<open>json.loads\<close> rejects (\<open>None\<close>
  here) is skipped. Each line comes with the clock reading of its pass.\<close>

fun run_engine :: "alert_args \<Rightarrow> (int \<times> event option) list \<Rightarrow> engine \<Rightarrow> engine \<times> alert list" where
  "run_engine a [] st = (st, [])"
| "run_engine a ((now, None) # rest) st = run_engine a rest st"
| "run_engine a ((now, Some evt) # rest) st =
     (let (st', out) = process_event a now evt st;
          (st'', out') = run_engine a rest st'
      in (st'', out @ out'))"

definition ssh_failed :: "int \<Rightarrow> string \<Rightarrow> event" where
  "ssh_failed t ip = \<lparr>ev_ts = Some t, ev_event = Some ''ssh_failed'', ev_ip = Some ip,
                      ev_user = None, ev_cmd = None\<rparr>"

definition ssh_accepted :: "int \<Rightarrow> string \<Rightarrow> event" where
  "ssh_accepted t ip = \<lparr>ev_ts = Some t, ev_event = Some ''ssh_accepted'', ev_ip = Some ip,
                        ev_user = None, ev_cmd = None\<rparr>"


section \<open>follow\_file: the line follower of auth\_log\_monitor.py and simple\_alerts.py\<close>

text \<open>
  The follower sees the file system once in each pass of its \<^verbatim>\<open>while True\<close> loop. A
  snapshot gives the inode number found at the path (\<open>None\<close> when \<^verbatim>\<open>os.stat\<close> raises
  \<^verbatim>\<open>FileNotFoundError\<close>) and the text of every inode, also of one that was renamed away
  and is still open: its content as decoded with \<^verbatim>\<open>errors="replace"\<close>, before the newline
  translation, one character per position. The handle \<^verbatim>\<open>f\<close> is the inode it was opened on and
  its read position.
\<close>

record snapshot =
  at_path :: "nat option"
  text_of :: "nat \<Rightarrow> string"

record follower =
  f_handle :: "(nat \<times> nat) option"
  current_inode :: "nat option"

text \<open>\<^verbatim>\<open>f.readline()\<close> on a file opened in text mode, where the newline translation is on:
  a line ends at a line feed, at a carriage return followed by a line feed, or at a carriage
  return alone, and the line returned ends in a line feed whichever it was. Given the unread
  text, \<open>read_line\<close> returns the line and the number of characters it consumes; without a
  line end it returns all the unread text, and nothing at the end of the file.\<close>

fun read_line :: "string \<Rightarrow> string \<times> nat" where
  "read_line [] = ([], 0)"
| "read_line (c # cs) =
     (if c = CHR 0x0A then ([CHR 0x0A], 1)
      else if c = CHR 0x0D
      then ([CHR 0x0A], (case cs of [] \<Rightarrow> 1 | d # ds \<Rightarrow> if d = CHR 0x0A then 2 else 1))
      else (case read_line cs of (l, n) \<Rightarrow> (c # l, Suc n)))"

definition readline :: "string \<Rightarrow> nat \<Rightarrow> string \<times> nat" where
  "readline txt pos = read_line (drop pos txt)"

text \<open>\<^verbatim>\<open>line.rstrip("\n")\<close> (auth\_log\_monitor.py) and \<^verbatim>\<open>line.strip()\<close> (simple\_alerts.py), the
  latter with the white space characters up to U+00FF.\<close>

definition rstrip_newline :: "string \<Rightarrow> string" where
  "rstrip_newline s = rev (dropWhile (\<lambda>c. c = CHR 0x0A) (rev s))"

definition isspace :: "char \<Rightarrow> bool" where
  "isspace c = (c = CHR 0x20 \<or> c = CHR 0x09 \<or> c = CHR 0x0A \<or> c = CHR 0x0B \<or> c = CHR 0x0C
                \<or> c = CHR 0x0D \<or> c = CHR 0x1C \<or> c = CHR 0x1D \<or> c = CHR 0x1E \<or> c = CHR 0x1F
                \<or> c = CHR 0x85 \<or> c = CHR 0xA0)"

definition strip :: "string \<Rightarrow> string" where
  "strip s = rev (dropWhile isspace (rev (dropWhile isspace s)))"

text \<open>The \<^verbatim>\<open>if f is None\<close> block: open the path, seek to the end, record the inode; when the
  path is missing the pass ends (\<^verbatim>\<open>sleep(1); continue\<close>) and the result is \<open>None\<close>.\<close>

definition ensure_open :: "snapshot \<Rightarrow> follower \<Rightarrow> follower option" where
  "ensure_open snap st =
     (case f_handle st of
        Some h \<Rightarrow> Some st
      | None \<Rightarrow>
          (case at_path snap of
             None \<Rightarrow> None
           | Some i \<Rightarrow> Some \<lparr>f_handle = Some (i, length (text_of snap i)),
                             current_inode = Some i\<rparr>))"

text \<open>The rest of the pass: read a line and yield it, or compare inodes and close on a
  change. \<open>clean\<close> is what the generator applies to the line it yields.\<close>

definition read_or_check :: "(string \<Rightarrow> string) \<Rightarrow> snapshot \<Rightarrow> follower \<Rightarrow> follower \<times> string option" where
  "read_or_check clean snap st =
     (case f_handle st of
        None \<Rightarrow> (st, None)
      | Some (i, pos) \<Rightarrow>
          (let (line, n) = readline (text_of snap i) pos in
           if line \<noteq> []
           then (st\<lparr>f_handle := Some (i, pos + n)\<rparr>, Some (clean line))
           else if at_path snap \<noteq> None \<and> current_inode st \<noteq> None
                   \<and> at_path snap \<noteq> current_inode st
           then (st\<lparr>f_handle := None\<rparr>, None)
           else (st, None)))"

definition follow_pass :: "(string \<Rightarrow> string) \<Rightarrow> snapshot \<Rightarrow> follower \<Rightarrow> follower \<times> string option" where
  "follow_pass clean snap st =
     (case ensure_open snap st of
        None \<Rightarrow> (st, None)
      | Some st' \<Rightarrow> read_or_check clean snap st')"

text \<open>The generator run over the snapshots of its successive passes: the state it reaches
  and the lines it has yielded so far.\<close>

fun follow_passes :: "(string \<Rightarrow> string) \<Rightarrow> snapshot list \<Rightarrow> follower \<Rightarrow> follower \<times> string list" where
  "follow_passes clean [] st = (st, [])"
| "follow_passes clean (snap # snaps) st =
     (let (st', y) = follow_pass clean snap st;
          (st'', ys) = follow_passes clean snaps st'
      in (st'', (case y of None \<Rightarrow> [] | Some l \<Rightarrow> [l]) @ ys))"

text \<open>\<^verbatim>\<open>follow_file(path)\<close>: \<^verbatim>\<open>current_inode = inode(path); f = None\<close>, then the loop.\<close>

definition follow_file :: "(string \<Rightarrow> string) \<Rightarrow> snapshot \<Rightarrow> snapshot list \<Rightarrow> follower \<times> string list" where
  "follow_file clean snap0 snaps =
     follow_passes clean snaps \<lparr>f_handle = None, current_inode = at_path snap0\<rparr>"


section \<open>collector.py\<close>

record source =
  name :: string
  host :: string
  user :: string
  remote_path :: string
  port :: int

datatype error = TimeoutExpired | UnicodeDecodeError | JSONDecodeError | SystemExit string

text \<open>
  \<^verbatim>\<open>run(cmd, timeout)\<close> is \<^verbatim>\<open>subprocess.run(cmd, text=True, capture_output=True, timeout=timeout)\<close>.
  The child process exits with a code after printing bytes, or it outlives the timeout and
  \<^verbatim>\<open>subprocess.TimeoutExpired\<close> is raised. With \<^verbatim>\<open>text=True\<close> the bytes printed are decoded
  (as UTF-8, the encoding of the locale, with errors raised:
  \<^verbatim>\<open>UnicodeDecodeError\<close>) and \<^verbatim>\<open>"\r\n"\<close> and \<^verbatim>\<open>"\r"\<close> are replaced by \<^verbatim>\<open>"\n"\<close>. A Python \<^verbatim>\<open>str\<close> is
  the list of its code points; the content of a file is a string of bytes. Nothing here
  catches an exception, so each one ends the program where it is raised.
\<close>

type_synonym str = "nat list"

datatype completed = Completed (returncode: int) (stdout: str)

type_synonym run_result = "error + completed"

datatype child = Exited int string | Outlives_timeout

text \<open>The strict UTF-8 decoder: no overlong forms, no surrogates, nothing above U+10FFFF.
  \<open>None\<close> is the \<^verbatim>\<open>UnicodeDecodeError\<close>.\<close>

definition continuation :: "nat \<Rightarrow> bool" where
  "continuation b = (128 \<le> b \<and> b < 192)"

definition second_of3 :: "nat \<Rightarrow> nat \<Rightarrow> bool" where
  "second_of3 b c =
     (if b = 224 then 160 \<le> c \<and> c < 192
      else if b = 237 then 128 \<le> c \<and> c < 160
      else continuation c)"

definition second_of4 :: "nat \<Rightarrow> nat \<Rightarrow> bool" where
  "second_of4 b c =
     (if b = 240 then 144 \<le> c \<and> c < 192
      else if b = 244 then 128 \<le> c \<and> c < 144
      else continuation c)"

fun decode_utf8 :: "nat list \<Rightarrow> str option" where
  "decode_utf8 [] = Some []"
| "decode_utf8 (b # bs) =
     (if b < 128 then map_option (Cons b) (decode_utf8 bs)
      else if 194 \<le> b \<and> b < 224 then
        (case bs of
           c # r \<Rightarrow>
             if continuation c
             then map_option (Cons ((b - 192) * 64 + (c - 128))) (decode_utf8 r)
             else None
         | _ \<Rightarrow> None)
      else if 224 \<le> b \<and> b < 240 then
        (case bs of
           c # d # r \<Rightarrow>
             if second_of3 b c \<and> continuation d
             then map_option (Cons ((b - 224) * 4096 + (c - 128) * 64 + (d - 128)))
                    (decode_utf8 r)
             else None
         | _ \<Rightarrow> None)
      else if 240 \<le> b \<and> b < 245 then
        (case bs of
           c # d # e # r \<Rightarrow>
             if second_of4 b c \<and> continuation d \<and> continuation e
             then map_option
                    (Cons ((b - 240) * 262144 + (c - 128) * 4096 + (d - 128) * 64 + (e - 128)))
                    (decode_utf8 r)
             else None
         | _ \<Rightarrow> None)
      else None)"

declare decode_utf8.simps(2) [simp del]

text \<open>\<^verbatim>\<open>data.replace("\r\n", "\n").replace("\r", "\n")\<close>\<close>

fun universal_newlines :: "str \<Rightarrow> str" where
  "universal_newlines [] = []"
| "universal_newlines [c] = [if c = 13 then 10 else c]"
| "universal_newlines (c # d # cs) =
     (if c = 13 \<and> d = 10 then 10 # universal_newlines cs
      else if c = 13 then 10 # universal_newlines (d # cs)
      else c # universal_newlines (d # cs))"

definition run :: "child \<Rightarrow> run_result" where
  "run ch =
     (case ch of
        Outlives_timeout \<Rightarrow> Inl TimeoutExpired
      | Exited rc out \<Rightarrow>
          (case decode_utf8 (map of_char out) of
             None \<Rightarrow> Inl UnicodeDecodeError
           | Some s \<Rightarrow> Inr (Completed rc (universal_newlines s))))"

text \<open>\<^verbatim>\<open>s.encode("utf-8", errors="replace")\<close>: a surrogate, which has no encoding, becomes a
  question mark.\<close>

definition encode_char :: "nat \<Rightarrow> nat list" where
  "encode_char c =
     (if c < 128 then [c]
      else if c < 2048 then [192 + c div 64, 128 + c mod 64]
      else if 55296 \<le> c \<and> c < 57344 then [63]
      else if c < 65536 then [224 + c div 4096, 128 + c div 64 mod 64, 128 + c mod 64]
      else [240 + c div 262144, 128 + c div 4096 mod 64, 128 + c div 64 mod 64, 128 + c mod 64])"

definition encode_utf8 :: "str \<Rightarrow> string" where
  "encode_utf8 s = map char_of (concat (map encode_char s))"

text \<open>\<^verbatim>\<open>out.strip()\<close> removes the white space of Unicode at both ends. \<^verbatim>\<open>out.isdigit()\<close> and
  \<^verbatim>\<open>int(out)\<close> are taken on the ASCII digits, which are what \<^verbatim>\<open>stat -c %s\<close> prints; no other
  character counts as a digit here.\<close>

definition str_isspace :: "nat \<Rightarrow> bool" where
  "str_isspace c =
     ((9 \<le> c \<and> c \<le> 13) \<or> (28 \<le> c \<and> c \<le> 32) \<or> c = 133 \<or> c = 160 \<or> c = 5760
      \<or> (8192 \<le> c \<and> c \<le> 8202) \<or> c = 8232 \<or> c = 8233 \<or> c = 8239 \<or> c = 8287 \<or> c = 12288)"

definition str_strip :: "str \<Rightarrow> str" where
  "str_strip s = rev (dropWhile str_isspace (rev (dropWhile str_isspace s)))"

definition isdigit_char :: "nat \<Rightarrow> bool" where
  "isdigit_char c = (48 \<le> c \<and> c \<le> 57)"

definition isdigit :: "str \<Rightarrow> bool" where
  "isdigit s = (s \<noteq> [] \<and> list_all isdigit_char s)"

definition int_of_digits :: "str \<Rightarrow> int" where
  "int_of_digits s = foldl (\<lambda>acc c. 10 * acc + (int c - 48)) 0 s"

text \<open>\<^verbatim>\<open>remote_stat_size\<close>, on the result of its \<^verbatim>\<open>run(cmd)\<close>.\<close>

definition remote_stat_size :: "run_result \<Rightarrow> error + int option" where
  "remote_stat_size r =
     (case r of
        Inl e \<Rightarrow> Inl e
      | Inr p \<Rightarrow>
          if returncode p \<noteq> 0 then Inr None
          else (let out = str_strip (stdout p) in
                if \<not> isdigit out then Inr None else Inr (Some (int_of_digits out))))"

text \<open>\<^verbatim>\<open>sftp_read_range\<close>: \<open>run_tail start\<close> is the result of \<^verbatim>\<open>run\<close> on the
  \<^verbatim>\<open>tail -c +start\<close> command with the 30 second timeout. \<open>Some\<close> bytes are what it writes to
  \<^verbatim>\<open>local_tmp\<close>, the captured text encoded again, before returning \<^verbatim>\<open>True\<close>; \<open>None\<close> is
  \<^verbatim>\<open>False\<close>.\<close>

definition sftp_read_range :: "(int \<Rightarrow> run_result) \<Rightarrow> int \<Rightarrow> error + string option" where
  "sftp_read_range run_tail offset =
     (let start = offset + 1 in
      case run_tail start of
        Inl e \<Rightarrow> Inl e
      | Inr p \<Rightarrow> if returncode p \<noteq> 0 then Inr None else Inr (Some (encode_utf8 (stdout p))))"

datatype outcome =
    Unreachable_or_missing
  | No_change int
  | Fetch_failed int int
  | Ok_appended nat int

record status_record =
  st_source :: string
  st_host :: string
  st_status :: outcome

text \<open>The collector's variables and files: the \<^verbatim>\<open>offsets\<close> dictionary, the dictionary held by
  \<^verbatim>\<open>collector_offsets.json\<close> (\<open>None\<close> while the file is missing or does not parse; \<^verbatim>\<open>save_json\<close>
  replaces it), the files of the output directory by name,
  and the records of \<^verbatim>\<open>collector_status.jsonl\<close>.\<close>

record collector =
  offsets :: "string \<rightharpoonup> int"
  offsets_file :: "(string \<rightharpoonup> int) option"
  files :: "string \<rightharpoonup> string"
  status_log :: "status_record list"

definition local_out :: "source \<Rightarrow> string" where
  "local_out src = name src @ ''.jsonl''"

definition local_tmp :: "source \<Rightarrow> string" where
  "local_tmp src = ''.'' @ name src @ ''.tmp''"

definition log_status :: "source \<Rightarrow> outcome \<Rightarrow> collector \<Rightarrow> collector" where
  "log_status src oc st =
     st\<lparr>status_log := status_log st @ [\<lparr>st_source = name src, st_host = host src, st_status = oc\<rparr>]\<rparr>"

text \<open>\<^verbatim>\<open>append_file(dst_path, src_path)\<close>: the new state and the number of bytes appended.
  Opening the destination in append mode creates it.\<close>

definition append_file :: "string \<Rightarrow> string \<Rightarrow> collector \<Rightarrow> collector \<times> nat" where
  "append_file dst_path src_path st =
     (let chunk = (case files st src_path of None \<Rightarrow> [] | Some b \<Rightarrow> b);
          old = (case files st dst_path of None \<Rightarrow> [] | Some b \<Rightarrow> b)
      in (st\<lparr>files := (files st)(dst_path \<mapsto> old @ chunk)\<rparr>, length chunk))"

text \<open>The body of \<^verbatim>\<open>for src in sources\<close>. The first component is the exception that leaves
  the body, if any; the state is the one reached when it is raised. The variable \<^verbatim>\<open>size\<close> of the source
  is \<open>rsize\<close> here.\<close>

definition process_source :: "source \<Rightarrow> run_result \<Rightarrow> (int \<Rightarrow> run_result) \<Rightarrow> collector \<Rightarrow> error option \<times> collector" where
  "process_source src stat_result run_tail st =
     (let key = name src;
          old_offset = (case offsets st key of None \<Rightarrow> 0 | Some v \<Rightarrow> v)
      in case remote_stat_size stat_result of
           Inl e \<Rightarrow> (Some e, st)
         | Inr None \<Rightarrow> (None, log_status src Unreachable_or_missing st)
         | Inr (Some rsize) \<Rightarrow>
             (let old_offset = (if rsize < old_offset then 0 else old_offset) in
              if rsize = old_offset then (None, log_status src (No_change rsize) st)
              else
                (case sftp_read_range run_tail old_offset of
                   Inl e \<Rightarrow> (Some e, st)
                 | Inr None \<Rightarrow> (None, log_status src (Fetch_failed rsize old_offset) st)
                 | Inr (Some bytes) \<Rightarrow>
                     (let st1 = st\<lparr>files := (files st)(local_tmp src \<mapsto> bytes)\<rparr>;
                          (st2, bytes_appended) = append_file (local_out src) (local_tmp src) st1;
                          st3 = st2\<lparr>files := (files st2)(local_tmp src := None)\<rparr>;
                          st4 = st3\<lparr>offsets := (offsets st3)(key \<mapsto> rsize)\<rparr>;
                          st5 = st4\<lparr>offsets_file := Some (offsets st4)\<rparr>
                      in (None, log_status src (Ok_appended bytes_appended rsize) st5)))))"

text \<open>One collection cycle: each source with the results of its two remote commands.\<close>

type_synonym visit = "source \<times> run_result \<times> (int \<Rightarrow> run_result)"

fun cycle :: "visit list \<Rightarrow> collector \<Rightarrow> error option \<times> collector" where
  "cycle [] st = (None, st)"
| "cycle ((src, stat_result, run_tail) # rest) st =
     (case process_source src stat_result run_tail st of
        (Some e, st') \<Rightarrow> (Some e, st')
      | (None, st') \<Rightarrow> cycle rest st')"

text \<open>The \<^verbatim>\<open>while True\<close> loop over the cycles the environment offers; with \<^verbatim>\<open>--once\<close> it
  stops after the first. The number returned counts the cycles that ran to their end.\<close>

fun poll_loop :: "bool \<Rightarrow> visit list list \<Rightarrow> collector \<Rightarrow> error option \<times> collector \<times> nat" where
  "poll_loop once [] st = (None, st, 0)"
| "poll_loop once (c # cs) st =
     (case cycle c st of
        (Some e, st') \<Rightarrow> (Some e, st', 0)
      | (None, st') \<Rightarrow>
          if once then (None, st', 1)
          else (case poll_loop once cs st' of (e, st'', n) \<Rightarrow> (e, st'', Suc n)))"

text \<open>Start of \<^verbatim>\<open>main\<close>: \<open>offsets_text\<close> is the content of \<^verbatim>\<open>collector_offsets.json\<close>
  (\<open>None\<close> when \<^verbatim>\<open>os.path.exists\<close> is false) and \<open>load_json\<close> the parser, which raises on
  text it cannot parse.\<close>

definition startup_offsets :: "(string \<Rightarrow> error + (string \<rightharpoonup> int)) \<Rightarrow> string option \<Rightarrow> (string \<rightharpoonup> int)" where
  "startup_offsets load_json offsets_text =
     (case offsets_text of
        None \<Rightarrow> Map.empty
      | Some txt \<Rightarrow> (case load_json txt of Inl e \<Rightarrow> Map.empty | Inr obj \<Rightarrow> obj))"

definition collector_main ::
  "(string \<Rightarrow> error + (string \<rightharpoonup> int)) \<Rightarrow> string option \<Rightarrow> (string \<rightharpoonup> string) \<Rightarrow> source list
    \<Rightarrow> bool \<Rightarrow> visit list list \<Rightarrow> error option \<times> collector \<times> nat" where
  "collector_main load_json offsets_text outdir sources once cycles =
     (let st = \<lparr>offsets = startup_offsets load_json offsets_text,
                offsets_file = (case offsets_text of None \<Rightarrow> None
                                | Some txt \<Rightarrow> (case load_json txt of Inl e \<Rightarrow> None | Inr obj \<Rightarrow> Some obj)),
                files = outdir, status_log = []\<rparr>
      in if sources = [] then (Some (SystemExit ''No sources found in config.''), st, 0)
         else poll_loop once cycles st)"

text \<open>The remote side of the two commands, as the command strings are written to work. A
  host is unreachable (\<^verbatim>\<open>ssh\<close> exits with 255), hangs beyond the timeout, or runs the command
  on the file at \<^verbatim>\<open>remote_path\<close>, which may be missing. \<^verbatim>\<open>stat -c %s path 2>/dev/null\<close> prints
  the size in decimal, or fails on a missing file; \<^verbatim>\<open>tail -c +start path 2>/dev/null || true\<close>
  prints the file from byte \<open>start\<close> (counted from 1) and exits with 0 also when \<^verbatim>\<open>tail\<close>
  fails. \<open>run_stat\<close> and \<open>run_tail_on\<close> are what \<^verbatim>\<open>run\<close> makes of them.\<close>

datatype remote_view = Unreachable | Hung | Reachable "string option"

fun decimal :: "nat \<Rightarrow> string" where
  "decimal n = (if n < 10 then [char_of (48 + n)]
                else decimal (n div 10) @ [char_of (48 + n mod 10)])"

declare decimal.simps [simp del]

fun stat_cmd :: "remote_view \<Rightarrow> child" where
  "stat_cmd Unreachable = Exited 255 []"
| "stat_cmd Hung = Outlives_timeout"
| "stat_cmd (Reachable None) = Exited 1 []"
| "stat_cmd (Reachable (Some bytes)) = Exited 0 (decimal (length bytes) @ [CHR 0x0A])"

fun tail_cmd :: "remote_view \<Rightarrow> int \<Rightarrow> child" where
  "tail_cmd Unreachable start = Exited 255 []"
| "tail_cmd Hung start = Outlives_timeout"
| "tail_cmd (Reachable None) start = Exited 0 []"
| "tail_cmd (Reachable (Some bytes)) start =
     Exited 0 (if start < 0 then [] else drop (nat (start - 1)) bytes)"

definition run_stat :: "remote_view \<Rightarrow> run_result" where
  "run_stat v = run (stat_cmd v)"

definition run_tail_on :: "remote_view \<Rightarrow> int \<Rightarrow> run_result" where
  "run_tail_on v start = run (tail_cmd v start)"

text \<open>The mirror file of a source, empty while it does not exist.\<close>

definition mirror :: "collector \<Rightarrow> source \<Rightarrow> string" where
  "mirror st src = (case files st (local_out src) of None \<Rightarrow> [] | Some b \<Rightarrow> b)"

definition stored_offset :: "collector \<Rightarrow> source \<Rightarrow> int" where
  "stored_offset st src = (case offsets st (name src) of None \<Rightarrow> 0 | Some v \<Rightarrow> v)"



section \<open>Notions used in the statements\<close>

text \<open>The time the loop body works with: \<^verbatim>\<open>ts\<close> after the fallback to \<^verbatim>\<open>now_dt()\<close>.\<close>

definition event_time :: "int \<Rightarrow> event \<Rightarrow> int" where
  "event_time now evt = (case ev_ts evt of None \<Rightarrow> now | Some t \<Rightarrow> t)"

text \<open>\<^verbatim>\<open>fails_by_ip[ip]\<close> of the \<^verbatim>\<open>defaultdict\<close>: an absent key reads as the empty deque.\<close>

definition deque :: "engine \<Rightarrow> string \<Rightarrow> int list" where
  "deque st ip = (case fails_by_ip st ip of None \<Rightarrow> [] | Some d \<Rightarrow> d)"

text \<open>The address of an event that takes the \<^verbatim>\<open>ssh_failed\<close> branch.\<close>

definition failed_ip :: "event \<Rightarrow> string option" where
  "failed_ip evt =
     (if ev_event evt = Some ''ssh_failed'' \<and> truthy (ev_ip evt) then ev_ip evt else None)"

text \<open>The entries of a list of times that are not older than a cutoff, and the times of the
  events of a stream that take the \<^verbatim>\<open>ssh_failed\<close> branch for an address, in the order of the
  stream.\<close>

definition within :: "int \<Rightarrow> int list \<Rightarrow> int list" where
  "within cutoff ts = filter (\<lambda>t. cutoff \<le> t) ts"

fun failure_times :: "string \<Rightarrow> (int \<times> event option) list \<Rightarrow> int list" where
  "failure_times ip [] = []"
| "failure_times ip ((now, None) # rest) = failure_times ip rest"
| "failure_times ip ((now, Some evt) # rest) =
     (if failed_ip evt = Some ip then [event_time now evt] else []) @ failure_times ip rest"

fun is_bruteforce :: "alert \<Rightarrow> bool" where
  "is_bruteforce (Ssh_bruteforce_suspected ip n w e) = True"
| "is_bruteforce _ = False"

text \<open>The offset a visit works with after the comparison with the remote size:
  \<^verbatim>\<open>if size < old_offset: old_offset = 0\<close>.\<close>

definition effective_offset :: "int \<Rightarrow> int \<Rightarrow> int" where
  "effective_offset rsize old_offset = (if rsize < old_offset then 0 else old_offset)"

text \<open>A source and the collector's state at its first start in an empty output directory,
  for the examples.\<close>

definition pi_source :: source where
  "pi_source = \<lparr>name = ''smart_house_pi3'', host = ''192.168.1.50'', user = ''pi'',
                 remote_path = ''/var/log/iot_auth_events.jsonl'', port = 22\<rparr>"

definition collector0 :: collector where
  "collector0 = \<lparr>offsets = Map.empty, offsets_file = None, files = Map.empty, status_log = []\<rparr>"

text \<open>The state of a collector that has mirrored \<open>m\<close> from a source and stored the offset
  \<open>n\<close> for it, and a second source.\<close>

definition collector_at :: "source \<Rightarrow> int \<Rightarrow> string \<Rightarrow> collector" where
  "collector_at src n m =
     \<lparr>offsets = [name src \<mapsto> n], offsets_file = Some [name src \<mapsto> n],
      files = [local_out src \<mapsto> m], status_log = []\<rparr>"

definition nas_source :: source where
  "nas_source = \<lparr>name = ''nas'', host = ''192.168.1.60'', user = ''admin'',
                  remote_path = ''/var/log/iot_auth_events.jsonl'', port = 22\<rparr>"

text \<open>A parser for the offsets file that accepts only the empty object, for the examples.\<close>

definition load_empty_object :: "string \<Rightarrow> error + (string \<rightharpoonup> int)" where
  "load_empty_object txt = (if txt = ''{}'' then Inr Map.empty else Inl JSONDecodeError)"

text \<open>A snapshot from the inode at the path and the texts of the inodes that exist; the
  line feed as a string.\<close>

definition snap :: "nat option \<Rightarrow> (nat \<times> string) list \<Rightarrow> snapshot" where
  "snap p inodes =
     \<lparr>at_path = p, text_of = (\<lambda>i. case map_of inodes i of None \<Rightarrow> [] | Some t \<Rightarrow> t)\<rparr>"

abbreviation NL :: string where
  "NL \<equiv> [CHR 0x0A]"

text \<open>Bytes that the text mode of \<^verbatim>\<open>run\<close> hands back unchanged: valid UTF-8 without a
  carriage return.\<close>

definition plain_utf8 :: "string \<Rightarrow> bool" where
  "plain_utf8 bytes = (decode_utf8 (map of_char bytes) \<noteq> None \<and> CHR 0x0D \<notin> set bytes)"


section \<open>Properties of the alert engine\<close>

subsection \<open>The brute-force alert\<close>

lemma popleft_old_dropWhile: "popleft_old c dq = dropWhile (\<lambda>t. t < c) dq"
  by (induction dq) auto

lemma popleft_old_sorted: "sorted dq \<Longrightarrow> popleft_old c dq = filter (\<lambda>t. c \<le> t) dq"
proof (induction dq)
  case Nil
  then show ?case by simp
next
  case (Cons t dq)
  show ?case
  proof (cases "t < c")
    case True
    with Cons show ?thesis by simp
  next
    case False
    with Cons.prems have "\<forall>u\<in>set (t # dq). c \<le> u" by auto
    then have "filter (\<lambda>t. c \<le> t) (t # dq) = t # dq"
      by (simp only: filter_True)
    with False show ?thesis by simp
  qed
qed

lemma bruteforce_step:
  "filter is_bruteforce (snd (process_event a now evt st)) =
     (case failed_ip evt of
        None \<Rightarrow> []
      | Some ip \<Rightarrow>
          if int (length (popleft_old (event_time now evt - window a) (deque st ip @ [event_time now evt])))
               = fail_threshold a
          then [Ssh_bruteforce_suspected ip
                  (length (popleft_old (event_time now evt - window a) (deque st ip @ [event_time now evt])))
                  (window_min a) evt]
          else [])"
  by (cases "ev_ip evt")
     (auto simp add: process_event_def dispatch_def on_ssh_failed_def on_ssh_accepted_def Let_def
       failed_ip_def event_time_def deque_def split: option.splits)

lemma deque_step:
  "failed_ip evt = Some ip \<Longrightarrow>
   deque (fst (process_event a now evt st)) ip =
     popleft_old (event_time now evt - window a) (deque st ip @ [event_time now evt])"
  by (cases "ev_ip evt")
     (auto simp add: process_event_def dispatch_def on_ssh_failed_def on_ssh_accepted_def Let_def
       failed_ip_def event_time_def deque_def split: option.splits if_splits)


lemma failed_ip_ssh_failed: "ip \<noteq> [] \<Longrightarrow> failed_ip (ssh_failed t ip) = Some ip"
  by (simp add: failed_ip_def ssh_failed_def)

lemma event_time_ssh_failed: "event_time now (ssh_failed t ip) = t"
  by (simp add: event_time_def ssh_failed_def)

lemma out_ssh_failed:
  "ip \<noteq> [] \<Longrightarrow> snd (process_event a now (ssh_failed t ip) st) =
     (if int (length (popleft_old (t - window a) (deque st ip @ [t]))) = fail_threshold a
      then [Ssh_bruteforce_suspected ip (length (popleft_old (t - window a) (deque st ip @ [t])))
              (window_min a) (ssh_failed t ip)]
      else [])"
  by (simp add: process_event_def dispatch_def on_ssh_failed_def Let_def ssh_failed_def deque_def)

lemma deque_ssh_failed:
  "ip \<noteq> [] \<Longrightarrow> deque (fst (process_event a now (ssh_failed t ip) st)) ip =
     popleft_old (t - window a) (deque st ip @ [t])"
  by (simp add: deque_step failed_ip_ssh_failed event_time_ssh_failed)

lemma within_within: "c \<le> c' \<Longrightarrow> within c' (within c ts) = within c' ts"
  by (induction ts) (auto simp add: within_def)

lemma sorted_within: "sorted ts \<Longrightarrow> sorted (within c ts)"
  by (simp add: within_def sorted_wrt_filter)

lemma popleft_old_within: "sorted dq \<Longrightarrow> popleft_old c dq = within c dq"
  by (simp add: popleft_old_sorted within_def)

text \<open>The deque that the failures \<open>fs\<close> of an address leave when they arrived in order.\<close>

lemma window_step:
  assumes "sorted (fs @ [t])"
  shows "popleft_old (t - w) ((if fs = [] then [] else within (last fs - w) fs) @ [t])
           = within (t - w) (fs @ [t])"
proof (cases "fs = []")
  case True
  then show ?thesis by (simp add: within_def)
next
  case False
  from assms have s: "sorted fs" and le: "\<forall>x\<in>set fs. x \<le> t"
    by (simp_all add: sorted_append)
  from False le have l: "last fs \<le> t" by simp
  have "sorted (within (last fs - w) fs)" using s by (rule sorted_within)
  moreover have "\<forall>x\<in>set (within (last fs - w) fs). x \<le> t"
    using le by (simp add: within_def)
  ultimately have "sorted (within (last fs - w) fs @ [t])"
    by (simp add: sorted_append)
  then have "popleft_old (t - w) (within (last fs - w) fs @ [t])
               = within (t - w) (within (last fs - w) fs @ [t])"
    by (rule popleft_old_within)
  also have "\<dots> = within (t - w) (within (last fs - w) fs) @ within (t - w) [t]"
    by (simp add: within_def)
  also have "within (t - w) (within (last fs - w) fs) = within (t - w) fs"
    using l by (simp add: within_within)
  finally show ?thesis using False by (simp add: within_def)
qed

lemma deque_untouched:
  "failed_ip evt \<noteq> Some k \<Longrightarrow> deque (fst (process_event a now evt st)) k = deque st k"
  by (cases "ev_ip evt")
     (auto simp add: process_event_def dispatch_def on_ssh_failed_def on_ssh_accepted_def Let_def
       failed_ip_def deque_def split: option.splits if_splits)

lemma deque_run_sorted:
  assumes "deque st ip = (if fs = [] then [] else within (last fs - window a) fs)"
    and "sorted (fs @ failure_times ip evs)"
  shows "deque (fst (run_engine a evs st)) ip =
           (if fs @ failure_times ip evs = [] then []
            else within (last (fs @ failure_times ip evs) - window a) (fs @ failure_times ip evs))"
  using assms
proof (induction a evs st arbitrary: fs rule: run_engine.induct)
  case (1 a st)
  then show ?case by simp
next
  case (2 a now rest st)
  then show ?case by simp
next
  case (3 a now evt rest st)
  show ?case
  proof (cases "failed_ip evt = Some ip")
    case True
    let ?t = "event_time now evt"
    let ?st = "fst (process_event a now evt st)"
    from "3.prems"(2) True have srt: "sorted ((fs @ [?t]) @ failure_times ip rest)" by simp
    then have s1: "sorted (fs @ [?t])" by (simp add: sorted_append)
    have d: "deque ?st ip = (if fs @ [?t] = [] then []
               else within (last (fs @ [?t]) - window a) (fs @ [?t]))"
      using deque_step [OF True, of a now st] "3.prems"(1) window_step [OF s1, of "window a"]
      by simp
    have "deque (fst (run_engine a rest ?st)) ip =
           (if (fs @ [?t]) @ failure_times ip rest = [] then []
            else within (last ((fs @ [?t]) @ failure_times ip rest) - window a)
                   ((fs @ [?t]) @ failure_times ip rest))"
      by (rule "3.IH" [OF _ _ d srt]) (simp_all add: prod_eq_iff)
    then show ?thesis using True by (simp add: case_prod_beta)
  next
    case False
    let ?st = "fst (process_event a now evt st)"
    from "3.prems"(2) False have srt: "sorted (fs @ failure_times ip rest)" by simp
    have d: "deque ?st ip = (if fs = [] then [] else within (last fs - window a) fs)"
      using deque_untouched [OF False, of a now st] "3.prems"(1) by simp
    have "deque (fst (run_engine a rest ?st)) ip =
           (if fs @ failure_times ip rest = [] then []
            else within (last (fs @ failure_times ip rest) - window a) (fs @ failure_times ip rest))"
      by (rule "3.IH" [OF _ _ d srt]) (simp_all add: prod_eq_iff)
    then show ?thesis using False by (simp add: case_prod_beta)
  qed
qed


lemma deque_engine0: "deque engine0 ip = []"
  by (simp add: deque_def engine0_def)

lemma deque_chronological:
  assumes "sorted (failure_times ip evs)"
  shows "deque (fst (run_engine a evs engine0)) ip =
           (if failure_times ip evs = [] then []
            else within (last (failure_times ip evs) - window a) (failure_times ip evs))"
  using deque_run_sorted [of engine0 ip "[]" a evs] assms by (simp add: deque_engine0)

lemma chronological_step:
  assumes f: "failed_ip evt = Some ip"
    and s: "sorted (failure_times ip evs @ [event_time now evt])"
  shows "popleft_old (event_time now evt - window a)
           (deque (fst (run_engine a evs engine0)) ip @ [event_time now evt])
         = within (event_time now evt - window a) (failure_times ip evs @ [event_time now evt])"
proof -
  from s have "sorted (failure_times ip evs)" by (simp add: sorted_append)
  then have "deque (fst (run_engine a evs engine0)) ip =
           (if failure_times ip evs = [] then []
            else within (last (failure_times ip evs) - window a) (failure_times ip evs))"
    by (rule deque_chronological)
  then show ?thesis using window_step [OF s, of "window a"] by simp
qed

lemma chronological_alert:
  assumes f: "failed_ip evt = Some ip"
    and s: "sorted (failure_times ip evs @ [event_time now evt])"
  shows "filter is_bruteforce (snd (process_event a now evt (fst (run_engine a evs engine0)))) =
     (if int (length (within (event_time now evt - window a)
                        (failure_times ip evs @ [event_time now evt]))) = fail_threshold a
      then [Ssh_bruteforce_suspected ip
              (length (within (event_time now evt - window a)
                         (failure_times ip evs @ [event_time now evt])))
              (window_min a) evt]
      else [])"
  using bruteforce_step [of a now evt "fst (run_engine a evs engine0)"] f
  by (simp add: chronological_step [OF f s])

lemma chronological_deque:
  assumes f: "failed_ip evt = Some ip"
    and s: "sorted (failure_times ip evs @ [event_time now evt])"
  shows "deque (fst (process_event a now evt (fst (run_engine a evs engine0)))) ip =
           within (event_time now evt - window a) (failure_times ip evs @ [event_time now evt])"
  using deque_step [OF f, of a now "fst (run_engine a evs engine0)"]
  by (simp add: chronological_step [OF f s])

lemma no_failure_no_alert:
  "failed_ip evt = None \<Longrightarrow> filter is_bruteforce (snd (process_event a now evt st)) = []"
  using bruteforce_step [of a now evt st] by simp

lemma run_engine_append:
  "run_engine a (evs @ evs') st =
     (fst (run_engine a evs' (fst (run_engine a evs st))),
      snd (run_engine a evs st) @ snd (run_engine a evs' (fst (run_engine a evs st))))"
proof (induction a evs st rule: run_engine.induct)
  case (1 a st)
  then show ?case by simp
next
  case (2 a now rest st)
  then show ?case by simp
next
  case (3 a now evt rest st)
  have "run_engine a (rest @ evs') (fst (process_event a now evt st)) =
     (fst (run_engine a evs' (fst (run_engine a rest (fst (process_event a now evt st))))),
      snd (run_engine a rest (fst (process_event a now evt st)))
        @ snd (run_engine a evs' (fst (run_engine a rest (fst (process_event a now evt st))))))"
    by (rule "3.IH") (simp_all add: prod_eq_iff)
  then show ?case by (simp add: case_prod_beta)
qed

lemma run_engine_snoc:
  "snd (run_engine a (evs @ [(now, Some evt)]) engine0) =
     snd (run_engine a evs engine0) @ snd (process_event a now evt (fst (run_engine a evs engine0)))"
  by (simp add: run_engine_append case_prod_beta)

lemma three_failures_scenario:
  assumes ip: "ip \<noteq> []" and fresh: "fails_by_ip st ip = None"
    and th: "fail_threshold a = 3" and w: "window_min a = 5"
    and o: "t1 \<le> t2" "t2 \<le> t3" "t3 - t1 \<le> 240000000" "t4 = t3 + 60000000" "t4 \<le> t5"
  shows "snd (run_engine a [(n1, Some (ssh_failed t1 ip)), (n2, Some (ssh_failed t2 ip)),
                             (n3, Some (ssh_failed t3 ip))] st)
           = [Ssh_bruteforce_suspected ip 3 5 (ssh_failed t3 ip)]"
    and "snd (run_engine a [(n1, Some (ssh_failed t1 ip)), (n2, Some (ssh_failed t2 ip)),
                             (n3, Some (ssh_failed t3 ip)), (n4, Some (ssh_failed t4 ip))] st)
           = [Ssh_bruteforce_suspected ip 3 5 (ssh_failed t3 ip)]"
    and "deque (fst (run_engine a [(n1, Some (ssh_failed t1 ip)), (n2, Some (ssh_failed t2 ip)),
                             (n3, Some (ssh_failed t3 ip)), (n4, Some (ssh_failed t4 ip)),
                             (n5, Some (ssh_failed t5 ip))] st)) ip
           = within (t5 - window a) [t1, t2, t3, t4, t5]"
    and "snd (run_engine a [(n1, Some (ssh_failed t1 ip)), (n2, Some (ssh_failed t2 ip)),
                             (n3, Some (ssh_failed t3 ip)), (n4, Some (ssh_failed t4 ip)),
                             (n5, Some (ssh_failed t5 ip))] st)
           = Ssh_bruteforce_suspected ip 3 5 (ssh_failed t3 ip)
             # (if length (within (t5 - window a) [t1, t2, t3, t4, t5]) = 3
                then [Ssh_bruteforce_suspected ip 3 5 (ssh_failed t5 ip)] else [])"
proof -
  define s1 where "s1 = fst (process_event a n1 (ssh_failed t1 ip) st)"
  define s2 where "s2 = fst (process_event a n2 (ssh_failed t2 ip) s1)"
  define s3 where "s3 = fst (process_event a n3 (ssh_failed t3 ip) s2)"
  define s4 where "s4 = fst (process_event a n4 (ssh_failed t4 ip) s3)"
  define s5 where "s5 = fst (process_event a n5 (ssh_failed t5 ip) s4)"
  have W: "window a = 300000000" using w by (simp add: window_def)
  have d0: "deque st ip = []" using fresh by (simp add: deque_def)
  have d1: "deque s1 ip = [t1]"
    unfolding s1_def deque_ssh_failed [OF ip] d0 W by simp
  have d2: "deque s2 ip = [t1, t2]"
    unfolding s2_def deque_ssh_failed [OF ip] d1 W using o by simp
  have d3: "deque s3 ip = [t1, t2, t3]"
    unfolding s3_def deque_ssh_failed [OF ip] d2 W using o by simp
  have d4: "deque s4 ip = [t1, t2, t3, t4]"
    unfolding s4_def deque_ssh_failed [OF ip] d3 W using o by simp
  have "sorted [t1, t2, t3, t4, t5]" using o by simp
  then have p5: "popleft_old (t5 - window a) ([t1, t2, t3, t4] @ [t5])
                   = within (t5 - window a) [t1, t2, t3, t4, t5]"
    by (simp only: popleft_old_sorted within_def append.simps)
  have d5: "deque s5 ip = within (t5 - window a) [t1, t2, t3, t4, t5]"
    unfolding s5_def deque_ssh_failed [OF ip] d4 by (rule p5)
  have o5: "snd (process_event a n5 (ssh_failed t5 ip) s4) =
              (if length (within (t5 - window a) [t1, t2, t3, t4, t5]) = 3
               then [Ssh_bruteforce_suspected ip 3 5 (ssh_failed t5 ip)] else [])"
    unfolding out_ssh_failed [OF ip] d4 p5 using th w by simp
  have o1: "snd (process_event a n1 (ssh_failed t1 ip) st) = []"
    unfolding out_ssh_failed [OF ip] d0 W using th by simp
  have o2: "snd (process_event a n2 (ssh_failed t2 ip) s1) = []"
    unfolding out_ssh_failed [OF ip] d1 W using th o by simp
  have o3: "snd (process_event a n3 (ssh_failed t3 ip) s2) = [Ssh_bruteforce_suspected ip 3 5 (ssh_failed t3 ip)]"
    unfolding out_ssh_failed [OF ip] d2 W using th o w by simp
  have o4: "snd (process_event a n4 (ssh_failed t4 ip) s3) = []"
    unfolding out_ssh_failed [OF ip] d3 W using th o by simp
  show "snd (run_engine a [(n1, Some (ssh_failed t1 ip)), (n2, Some (ssh_failed t2 ip)),
                             (n3, Some (ssh_failed t3 ip))] st)
           = [Ssh_bruteforce_suspected ip 3 5 (ssh_failed t3 ip)]"
    using o1 o2 o3 by (simp add: case_prod_beta s1_def s2_def)
  show "snd (run_engine a [(n1, Some (ssh_failed t1 ip)), (n2, Some (ssh_failed t2 ip)),
                             (n3, Some (ssh_failed t3 ip)), (n4, Some (ssh_failed t4 ip))] st)
           = [Ssh_bruteforce_suspected ip 3 5 (ssh_failed t3 ip)]"
    using o1 o2 o3 o4 by (simp add: case_prod_beta s1_def s2_def s3_def)
  show "deque (fst (run_engine a [(n1, Some (ssh_failed t1 ip)), (n2, Some (ssh_failed t2 ip)),
                             (n3, Some (ssh_failed t3 ip)), (n4, Some (ssh_failed t4 ip)),
                             (n5, Some (ssh_failed t5 ip))] st)) ip
           = within (t5 - window a) [t1, t2, t3, t4, t5]"
    using d5 by (simp add: case_prod_beta s1_def s2_def s3_def s4_def s5_def)
  show "snd (run_engine a [(n1, Some (ssh_failed t1 ip)), (n2, Some (ssh_failed t2 ip)),
                             (n3, Some (ssh_failed t3 ip)), (n4, Some (ssh_failed t4 ip)),
                             (n5, Some (ssh_failed t5 ip))] st)
           = Ssh_bruteforce_suspected ip 3 5 (ssh_failed t3 ip)
             # (if length (within (t5 - window a) [t1, t2, t3, t4, t5]) = 3
                then [Ssh_bruteforce_suspected ip 3 5 (ssh_failed t5 ip)] else [])"
    using o1 o2 o3 o4 o5 by (simp add: case_prod_beta s1_def s2_def s3_def s4_def)
qed

text \<open>
  C3, as the source has it. An event that does not take the \<^verbatim>\<open>ssh_failed\<close> branch emits no
  \<open>ssh_bruteforce_suspected\<close> alert. Take any stream of events, processed from the start, and
  a next event that takes the \<^verbatim>\<open>ssh_failed\<close> branch for an address whose failure times,
  the new one included, are in non-decreasing order: the alert is emitted exactly when the
  number of failures of that address that are not older than the window equals
  \<open>fail_threshold\<close>, it carries that count, and these failures are the deque the state keeps;
  more failures in the window emit nothing.
  With a threshold of 3 and a window of 5 minutes, three failures of a fresh address within 4
  minutes give one alert with count 3, emitted at the third; a fourth failure one minute
  later adds no alert; after a fifth, later failure the deque holds exactly the failures
  within the window of the fifth, so no stale entry is counted, and the fifth failure emits
  one more alert exactly when three failures lie in its window.
\<close>

theorem bruteforce_edge_trigger:
  "(failed_ip evt = None \<longrightarrow> filter is_bruteforce (snd (process_event a now evt st)) = [])
   \<and> (failed_ip evt = Some k \<and> sorted (failure_times k evs @ [event_time now evt]) \<longrightarrow>
        filter is_bruteforce (snd (process_event a now evt (fst (run_engine a evs engine0)))) =
          (if int (length (within (event_time now evt - window a)
                             (failure_times k evs @ [event_time now evt]))) = fail_threshold a
           then [Ssh_bruteforce_suspected k
                   (length (within (event_time now evt - window a)
                              (failure_times k evs @ [event_time now evt])))
                   (window_min a) evt]
           else [])
        \<and> deque (fst (process_event a now evt (fst (run_engine a evs engine0)))) k =
            within (event_time now evt - window a) (failure_times k evs @ [event_time now evt]))
   \<and> (ip \<noteq> [] \<and> fails_by_ip st0 ip = None \<and> fail_threshold a = 3 \<and> window_min a = 5
        \<and> t1 \<le> t2 \<and> t2 \<le> t3 \<and> t3 - t1 \<le> 240000000 \<and> t4 = t3 + 60000000 \<and> t4 \<le> t5 \<longrightarrow>
        snd (run_engine a [(n1, Some (ssh_failed t1 ip)), (n2, Some (ssh_failed t2 ip)),
                           (n3, Some (ssh_failed t3 ip))] st0)
          = [Ssh_bruteforce_suspected ip 3 5 (ssh_failed t3 ip)]
        \<and> snd (run_engine a [(n1, Some (ssh_failed t1 ip)), (n2, Some (ssh_failed t2 ip)),
                             (n3, Some (ssh_failed t3 ip)), (n4, Some (ssh_failed t4 ip))] st0)
          = [Ssh_bruteforce_suspected ip 3 5 (ssh_failed t3 ip)]
        \<and> snd (run_engine a [(n1, Some (ssh_failed t1 ip)), (n2, Some (ssh_failed t2 ip)),
                             (n3, Some (ssh_failed t3 ip)), (n4, Some (ssh_failed t4 ip)),
                             (n5, Some (ssh_failed t5 ip))] st0)
          = Ssh_bruteforce_suspected ip 3 5 (ssh_failed t3 ip)
            # (if length (within (t5 - window a) [t1, t2, t3, t4, t5]) = 3
               then [Ssh_bruteforce_suspected ip 3 5 (ssh_failed t5 ip)] else [])
        \<and> deque (fst (run_engine a [(n1, Some (ssh_failed t1 ip)), (n2, Some (ssh_failed t2 ip)),
                                    (n3, Some (ssh_failed t3 ip)), (n4, Some (ssh_failed t4 ip)),
                                    (n5, Some (ssh_failed t5 ip))] st0)) ip
          = within (t5 - window a) [t1, t2, t3, t4, t5])"
proof (intro conjI impI)
  assume "failed_ip evt = None"
  then show "filter is_bruteforce (snd (process_event a now evt st)) = []"
    by (rule no_failure_no_alert)
next
  assume h: "failed_ip evt = Some k \<and> sorted (failure_times k evs @ [event_time now evt])"
  then have f: "failed_ip evt = Some k"
    and s: "sorted (failure_times k evs @ [event_time now evt])" by simp_all
  show "filter is_bruteforce (snd (process_event a now evt (fst (run_engine a evs engine0)))) =
          (if int (length (within (event_time now evt - window a)
                             (failure_times k evs @ [event_time now evt]))) = fail_threshold a
           then [Ssh_bruteforce_suspected k
                   (length (within (event_time now evt - window a)
                              (failure_times k evs @ [event_time now evt])))
                   (window_min a) evt]
           else [])"
    by (rule chronological_alert [OF f s])
  show "deque (fst (process_event a now evt (fst (run_engine a evs engine0)))) k =
            within (event_time now evt - window a) (failure_times k evs @ [event_time now evt])"
    by (rule chronological_deque [OF f s])
next
  assume h: "ip \<noteq> [] \<and> fails_by_ip st0 ip = None \<and> fail_threshold a = 3 \<and> window_min a = 5
        \<and> t1 \<le> t2 \<and> t2 \<le> t3 \<and> t3 - t1 \<le> 240000000 \<and> t4 = t3 + 60000000 \<and> t4 \<le> t5"
  then have s: "ip \<noteq> []" "fails_by_ip st0 ip = None" "fail_threshold a = 3" "window_min a = 5"
    "t1 \<le> t2" "t2 \<le> t3" "t3 - t1 \<le> 240000000" "t4 = t3 + 60000000" "t4 \<le> t5"
    by simp_all
  show "snd (run_engine a [(n1, Some (ssh_failed t1 ip)), (n2, Some (ssh_failed t2 ip)),
                           (n3, Some (ssh_failed t3 ip))] st0)
          = [Ssh_bruteforce_suspected ip 3 5 (ssh_failed t3 ip)]"
    by (rule three_failures_scenario(1) [OF s])
  show "snd (run_engine a [(n1, Some (ssh_failed t1 ip)), (n2, Some (ssh_failed t2 ip)),
                             (n3, Some (ssh_failed t3 ip)), (n4, Some (ssh_failed t4 ip))] st0)
          = [Ssh_bruteforce_suspected ip 3 5 (ssh_failed t3 ip)]"
    by (rule three_failures_scenario(2) [OF s])
  show "snd (run_engine a [(n1, Some (ssh_failed t1 ip)), (n2, Some (ssh_failed t2 ip)),
                             (n3, Some (ssh_failed t3 ip)), (n4, Some (ssh_failed t4 ip)),
                             (n5, Some (ssh_failed t5 ip))] st0)
          = Ssh_bruteforce_suspected ip 3 5 (ssh_failed t3 ip)
            # (if length (within (t5 - window a) [t1, t2, t3, t4, t5]) = 3
               then [Ssh_bruteforce_suspected ip 3 5 (ssh_failed t5 ip)] else [])"
    by (rule three_failures_scenario(4) [OF s])
  show "deque (fst (run_engine a [(n1, Some (ssh_failed t1 ip)), (n2, Some (ssh_failed t2 ip)),
                                    (n3, Some (ssh_failed t3 ip)), (n4, Some (ssh_failed t4 ip)),
                                    (n5, Some (ssh_failed t5 ip))] st0)) ip
          = within (t5 - window a) [t1, t2, t3, t4, t5]"
    by (rule three_failures_scenario(3) [OF s])
qed

text \<open>An \<^verbatim>\<open>ssh_accepted\<close> event; a third failure after two; and failures at 0:00, 0:30 and
  4:00, a fourth at 5:00 and a fifth at 6:00: one alert after three and after four events,
  and when the fifth arrives the three failures of its last five minutes raise a second
  alert.\<close>

theorem bruteforce_edge_trigger_witness:
  "filter is_bruteforce (snd (process_event \<lparr>fail_threshold = 3, window_min = 5, alert_sudo = False\<rparr> 0
      (ssh_accepted 0 ''10.0.0.5'') engine0)) = []
   \<and> filter is_bruteforce (snd (process_event \<lparr>fail_threshold = 3, window_min = 5, alert_sudo = False\<rparr> 0
      (ssh_failed 240000000 ''10.0.0.5'')
      (fst (run_engine \<lparr>fail_threshold = 3, window_min = 5, alert_sudo = False\<rparr>
          [(0, Some (ssh_failed 0 ''10.0.0.5'')), (0, Some (ssh_failed 30000000 ''10.0.0.5''))]
          engine0))))
     = [Ssh_bruteforce_suspected ''10.0.0.5'' 3 5 (ssh_failed 240000000 ''10.0.0.5'')]
   \<and> snd (run_engine \<lparr>fail_threshold = 3, window_min = 5, alert_sudo = False\<rparr>
          [(0, Some (ssh_failed 0 ''10.0.0.5'')), (0, Some (ssh_failed 30000000 ''10.0.0.5'')),
           (0, Some (ssh_failed 240000000 ''10.0.0.5''))] engine0)
     = [Ssh_bruteforce_suspected ''10.0.0.5'' 3 5 (ssh_failed 240000000 ''10.0.0.5'')]
   \<and> snd (run_engine \<lparr>fail_threshold = 3, window_min = 5, alert_sudo = False\<rparr>
          [(0, Some (ssh_failed 0 ''10.0.0.5'')), (0, Some (ssh_failed 30000000 ''10.0.0.5'')),
           (0, Some (ssh_failed 240000000 ''10.0.0.5'')),
           (0, Some (ssh_failed 300000000 ''10.0.0.5''))] engine0)
     = [Ssh_bruteforce_suspected ''10.0.0.5'' 3 5 (ssh_failed 240000000 ''10.0.0.5'')]
   \<and> snd (run_engine \<lparr>fail_threshold = 3, window_min = 5, alert_sudo = False\<rparr>
          [(0, Some (ssh_failed 0 ''10.0.0.5'')), (0, Some (ssh_failed 30000000 ''10.0.0.5'')),
           (0, Some (ssh_failed 240000000 ''10.0.0.5'')),
           (0, Some (ssh_failed 300000000 ''10.0.0.5'')),
           (0, Some (ssh_failed 360000000 ''10.0.0.5''))] engine0)
     = [Ssh_bruteforce_suspected ''10.0.0.5'' 3 5 (ssh_failed 240000000 ''10.0.0.5''),
        Ssh_bruteforce_suspected ''10.0.0.5'' 3 5 (ssh_failed 360000000 ''10.0.0.5'')]
   \<and> deque (fst (run_engine \<lparr>fail_threshold = 3, window_min = 5, alert_sudo = False\<rparr>
          [(0, Some (ssh_failed 0 ''10.0.0.5'')), (0, Some (ssh_failed 30000000 ''10.0.0.5'')),
           (0, Some (ssh_failed 240000000 ''10.0.0.5'')),
           (0, Some (ssh_failed 300000000 ''10.0.0.5'')),
           (0, Some (ssh_failed 360000000 ''10.0.0.5''))] engine0)) ''10.0.0.5''
     = [240000000, 300000000, 360000000]"
proof -
  note t = bruteforce_edge_trigger [where a = "\<lparr>fail_threshold = 3, window_min = 5, alert_sudo = False\<rparr>"
      and now = 0 and st = engine0 and k = "''10.0.0.5''" and ip = "''10.0.0.5''" and ?st0.0 = engine0
      and ?t1.0 = 0 and ?t2.0 = 30000000 and ?t3.0 = 240000000 and ?t4.0 = 300000000
      and ?t5.0 = 360000000 and ?n1.0 = 0 and ?n2.0 = 0 and ?n3.0 = 0 and ?n4.0 = 0 and ?n5.0 = 0
      and evs = "[(0, Some (ssh_failed 0 ''10.0.0.5'')), (0, Some (ssh_failed 30000000 ''10.0.0.5''))]"]
  have h1: "failed_ip (ssh_accepted 0 ''10.0.0.5'') = None"
    by (simp add: failed_ip_def ssh_accepted_def)
  have h2: "failed_ip (ssh_failed 240000000 ''10.0.0.5'') = Some ''10.0.0.5''
            \<and> sorted (failure_times ''10.0.0.5''
                  [(0, Some (ssh_failed 0 ''10.0.0.5'')), (0, Some (ssh_failed 30000000 ''10.0.0.5''))]
                @ [event_time 0 (ssh_failed 240000000 ''10.0.0.5'')])"
    by (simp add: failed_ip_ssh_failed event_time_ssh_failed)
  have h3: "''10.0.0.5'' \<noteq> [] \<and> fails_by_ip engine0 ''10.0.0.5'' = None
        \<and> fail_threshold \<lparr>fail_threshold = 3, window_min = 5, alert_sudo = False\<rparr> = 3
        \<and> window_min \<lparr>fail_threshold = 3, window_min = 5, alert_sudo = False\<rparr> = 5
        \<and> (0::int) \<le> 30000000 \<and> (30000000::int) \<le> 240000000 \<and> (240000000::int) - 0 \<le> 240000000
        \<and> (300000000::int) = 240000000 + 60000000 \<and> (300000000::int) \<le> 360000000"
    by (simp add: engine0_def)
  have c1: "filter is_bruteforce (snd (process_event \<lparr>fail_threshold = 3, window_min = 5, alert_sudo = False\<rparr> 0
      (ssh_accepted 0 ''10.0.0.5'') engine0)) = []"
    using t [of "ssh_accepted 0 ''10.0.0.5''", THEN conjunct1, THEN mp, OF h1] .
  have c2: "filter is_bruteforce (snd (process_event \<lparr>fail_threshold = 3, window_min = 5, alert_sudo = False\<rparr> 0
      (ssh_failed 240000000 ''10.0.0.5'')
      (fst (run_engine \<lparr>fail_threshold = 3, window_min = 5, alert_sudo = False\<rparr>
          [(0, Some (ssh_failed 0 ''10.0.0.5'')), (0, Some (ssh_failed 30000000 ''10.0.0.5''))]
          engine0))))
     = [Ssh_bruteforce_suspected ''10.0.0.5'' 3 5 (ssh_failed 240000000 ''10.0.0.5'')]"
    using t [of "ssh_failed 240000000 ''10.0.0.5''", THEN conjunct2, THEN conjunct1, THEN mp, OF h2,
             THEN conjunct1]
    by (simp add: failed_ip_ssh_failed event_time_ssh_failed within_def window_def)
  note c3 = t [of "ssh_accepted 0 ''10.0.0.5''", THEN conjunct2, THEN conjunct2, THEN mp, OF h3]
  show ?thesis
    using c1 c2 c3 by (simp add: within_def window_def)
qed

text \<open>Without the order the count includes stale entries, because the loop pops only at the
  head of the deque: failures stamped 400 s, 0 s and 700 s raise the alert with count 3 at
  the third, although only two of them lie within the five minutes before it.\<close>

theorem out_of_order_counterexample:
  "snd (run_engine \<lparr>fail_threshold = 3, window_min = 5, alert_sudo = False\<rparr>
          [(0, Some (ssh_failed 400000000 ''10.0.0.5'')), (0, Some (ssh_failed 0 ''10.0.0.5'')),
           (0, Some (ssh_failed 700000000 ''10.0.0.5''))] engine0)
     = [Ssh_bruteforce_suspected ''10.0.0.5'' 3 5 (ssh_failed 700000000 ''10.0.0.5'')]
   \<and> deque (fst (run_engine \<lparr>fail_threshold = 3, window_min = 5, alert_sudo = False\<rparr>
          [(0, Some (ssh_failed 400000000 ''10.0.0.5'')), (0, Some (ssh_failed 0 ''10.0.0.5'')),
           (0, Some (ssh_failed 700000000 ''10.0.0.5''))] engine0)) ''10.0.0.5''
     = [400000000, 0, 700000000]
   \<and> within (700000000 - window \<lparr>fail_threshold = 3, window_min = 5, alert_sudo = False\<rparr>)
        [400000000, 0, 700000000] = [400000000, 700000000]"
  by (simp add: process_event_def dispatch_def on_ssh_failed_def Let_def engine0_def
      ssh_failed_def expire_def window_def deque_def within_def)

subsection \<open>Eviction\<close>

text \<open>After an event every entry of \<^verbatim>\<open>recent_fail_ips\<close> is at or after the cutoff of that
  event. The deques of \<^verbatim>\<open>fails_by_ip\<close> change only for the address of an \<^verbatim>\<open>ssh_failed\<close>
  event, and no key of that dictionary is ever removed.\<close>

lemma recent_fail_ips_fresh:
  "recent_fail_ips (fst (process_event a now evt st)) k = Some t \<Longrightarrow>
   event_time now evt - window a \<le> t"
  by (cases "ev_ip evt")
     (auto simp add: process_event_def dispatch_def on_ssh_failed_def on_ssh_accepted_def Let_def
       event_time_def expire_def split: option.splits if_splits)

lemma fails_by_ip_untouched:
  "failed_ip evt \<noteq> Some k \<Longrightarrow>
   fails_by_ip (fst (process_event a now evt st)) k = fails_by_ip st k"
  by (cases "ev_ip evt")
     (auto simp add: process_event_def dispatch_def on_ssh_failed_def on_ssh_accepted_def Let_def
       failed_ip_def split: option.splits if_splits)

lemma fails_by_ip_never_evicted:
  "fails_by_ip st k \<noteq> None \<Longrightarrow> fails_by_ip (fst (process_event a now evt st)) k \<noteq> None"
  by (cases "ev_ip evt")
     (auto simp add: process_event_def dispatch_def on_ssh_failed_def on_ssh_accepted_def Let_def
       split: option.splits if_splits)

text \<open>
  C6. A failure of \<open>10.0.0.1\<close> at time 0 and, one hour later, a failure of \<open>10.0.0.2\<close>, with
  a window of five minutes. After the second event the last-failure entry of \<open>10.0.0.1\<close> is
  gone, but its deque is still held and its only entry is older than the cutoff.
\<close>

theorem stale_failure_record_kept:
  "fails_by_ip (fst (run_engine \<lparr>fail_threshold = 8, window_min = 5, alert_sudo = False\<rparr>
       [(0, Some (ssh_failed 0 ''10.0.0.1'')), (0, Some (ssh_failed 3600000000 ''10.0.0.2''))]
       engine0)) ''10.0.0.1'' = Some [0]
   \<and> recent_fail_ips (fst (run_engine \<lparr>fail_threshold = 8, window_min = 5, alert_sudo = False\<rparr>
       [(0, Some (ssh_failed 0 ''10.0.0.1'')), (0, Some (ssh_failed 3600000000 ''10.0.0.2''))]
       engine0)) ''10.0.0.1'' = None
   \<and> recent_fail_ips (fst (run_engine \<lparr>fail_threshold = 8, window_min = 5, alert_sudo = False\<rparr>
       [(0, Some (ssh_failed 0 ''10.0.0.1'')), (0, Some (ssh_failed 3600000000 ''10.0.0.2''))]
       engine0)) ''10.0.0.2'' = Some 3600000000
   \<and> (0::int) < 3600000000 - window \<lparr>fail_threshold = 8, window_min = 5, alert_sudo = False\<rparr>"
  by (simp add: process_event_def dispatch_def on_ssh_failed_def Let_def engine0_def
      ssh_failed_def expire_def window_def)

subsection \<open>Success after failures\<close>

text \<open>A failure records its time for its address, and only non-empty addresses are ever
  recorded.\<close>

lemma recent_fail_ips_after_failure:
  "ip \<noteq> [] \<Longrightarrow> 0 \<le> window_min a \<Longrightarrow>
   recent_fail_ips (fst (process_event a now (ssh_failed t ip) st)) ip = Some t"
  by (simp add: process_event_def dispatch_def on_ssh_failed_def Let_def ssh_failed_def
      expire_def window_def)

lemma recent_fail_ips_keys:
  assumes "\<And>k. recent_fail_ips st k \<noteq> None \<Longrightarrow> k \<noteq> []"
    and "recent_fail_ips (fst (process_event a now evt st)) k \<noteq> None"
  shows "k \<noteq> []"
  using assms
  by (cases "ev_ip evt")
     (auto simp add: process_event_def dispatch_def on_ssh_failed_def on_ssh_accepted_def Let_def
       expire_def split: option.splits if_splits)

text \<open>
  C8. When an address has a recorded last failure time, an \<open>ssh_accepted\<close> event for it
  whose time is at most the window after that failure emits exactly one
  \<open>ssh_success_after_failures\<close> alert carrying the failure time, and a later one emits
  nothing. The time of the event is its own timestamp, or the clock when the timestamp did
  not parse. In particular, after a failure at time \<open>t\<close> a success at exactly \<open>t\<close> plus the
  window raises the alert (the boundary is inclusive) and a success one microsecond later
  does not.
\<close>

theorem accepted_within_window:
  "(recent_fail_ips st ip = Some last_fail \<and> ip \<noteq> []
      \<and> ev_event evt = Some ''ssh_accepted'' \<and> ev_ip evt = Some ip \<longrightarrow>
      snd (process_event a now evt st) =
        (if event_time now evt - last_fail \<le> window a
         then [Ssh_success_after_failures ip last_fail (window_min a) evt] else []))
   \<and> (ip \<noteq> [] \<and> 0 \<le> window_min a \<longrightarrow>
        snd (process_event a n2 (ssh_accepted (t + window a) ip)
               (fst (process_event a n1 (ssh_failed t ip) st)))
          = [Ssh_success_after_failures ip t (window_min a) (ssh_accepted (t + window a) ip)]
        \<and> snd (process_event a n2 (ssh_accepted (t + window a + 1) ip)
               (fst (process_event a n1 (ssh_failed t ip) st))) = [])"
proof (intro conjI impI)
  assume "recent_fail_ips st ip = Some last_fail \<and> ip \<noteq> []
      \<and> ev_event evt = Some ''ssh_accepted'' \<and> ev_ip evt = Some ip"
  then show "snd (process_event a now evt st) =
        (if event_time now evt - last_fail \<le> window a
         then [Ssh_success_after_failures ip last_fail (window_min a) evt] else [])"
    by (simp add: process_event_def dispatch_def on_ssh_accepted_def Let_def event_time_def
        split: option.splits)
next
  assume h: "ip \<noteq> [] \<and> 0 \<le> window_min a"
  then have r: "recent_fail_ips (fst (process_event a n1 (ssh_failed t ip) st)) ip = Some t"
    by (simp add: recent_fail_ips_after_failure)
  show "snd (process_event a n2 (ssh_accepted (t + window a) ip)
               (fst (process_event a n1 (ssh_failed t ip) st)))
          = [Ssh_success_after_failures ip t (window_min a) (ssh_accepted (t + window a) ip)]"
    using h r
    by (simp add: process_event_def [of a n2] dispatch_def on_ssh_accepted_def Let_def ssh_accepted_def)
  show "snd (process_event a n2 (ssh_accepted (t + window a + 1) ip)
               (fst (process_event a n1 (ssh_failed t ip) st))) = []"
    using h r
    by (simp add: process_event_def [of a n2] dispatch_def on_ssh_accepted_def Let_def ssh_accepted_def)
qed

text \<open>A failure at microsecond 1000 with a window of five minutes: a success exactly five
  minutes later raises the alert, a success one microsecond after that does not.\<close>

theorem accepted_within_window_witness:
  "recent_fail_ips (fst (process_event \<lparr>fail_threshold = 3, window_min = 5, alert_sudo = False\<rparr> 0
         (ssh_failed 1000 ''10.0.0.5'') engine0)) ''10.0.0.5'' = Some 1000
   \<and> snd (process_event \<lparr>fail_threshold = 3, window_min = 5, alert_sudo = False\<rparr> 0
         (ssh_accepted 300001000 ''10.0.0.5'')
         (fst (process_event \<lparr>fail_threshold = 3, window_min = 5, alert_sudo = False\<rparr> 0
                (ssh_failed 1000 ''10.0.0.5'') engine0)))
     = [Ssh_success_after_failures ''10.0.0.5'' 1000 5 (ssh_accepted 300001000 ''10.0.0.5'')]
   \<and> snd (process_event \<lparr>fail_threshold = 3, window_min = 5, alert_sudo = False\<rparr> 0
         (ssh_accepted 300001001 ''10.0.0.5'')
         (fst (process_event \<lparr>fail_threshold = 3, window_min = 5, alert_sudo = False\<rparr> 0
                (ssh_failed 1000 ''10.0.0.5'') engine0)))
     = []"
proof -
  have r: "recent_fail_ips (fst (process_event \<lparr>fail_threshold = 3, window_min = 5, alert_sudo = False\<rparr> 0
         (ssh_failed 1000 ''10.0.0.5'') engine0)) ''10.0.0.5'' = Some 1000"
    by (simp add: recent_fail_ips_after_failure)
  have h1: "recent_fail_ips (fst (process_event \<lparr>fail_threshold = 3, window_min = 5, alert_sudo = False\<rparr> 0
         (ssh_failed 1000 ''10.0.0.5'') engine0)) ''10.0.0.5'' = Some 1000 \<and> ''10.0.0.5'' \<noteq> []
      \<and> ev_event (ssh_accepted 300001000 ''10.0.0.5'') = Some ''ssh_accepted''
      \<and> ev_ip (ssh_accepted 300001000 ''10.0.0.5'') = Some ''10.0.0.5''"
    using r by (simp add: ssh_accepted_def)
  have h2: "''10.0.0.5'' \<noteq> [] \<and> 0 \<le> window_min \<lparr>fail_threshold = 3, window_min = 5, alert_sudo = False\<rparr>"
    by simp
  note t = accepted_within_window [of
      "fst (process_event \<lparr>fail_threshold = 3, window_min = 5, alert_sudo = False\<rparr> 0
         (ssh_failed 1000 ''10.0.0.5'') engine0)"
      "''10.0.0.5''" 1000 "ssh_accepted 300001000 ''10.0.0.5''"
      "\<lparr>fail_threshold = 3, window_min = 5, alert_sudo = False\<rparr>" 0 0 1000 0]
  note u = accepted_within_window [of engine0
      "''10.0.0.5''" 1000 "ssh_accepted 300001000 ''10.0.0.5''"
      "\<lparr>fail_threshold = 3, window_min = 5, alert_sudo = False\<rparr>" 0 0 1000 0]
  have a: "snd (process_event \<lparr>fail_threshold = 3, window_min = 5, alert_sudo = False\<rparr> 0
         (ssh_accepted 300001000 ''10.0.0.5'')
         (fst (process_event \<lparr>fail_threshold = 3, window_min = 5, alert_sudo = False\<rparr> 0
                (ssh_failed 1000 ''10.0.0.5'') engine0)))
     = [Ssh_success_after_failures ''10.0.0.5'' 1000 5 (ssh_accepted 300001000 ''10.0.0.5'')]"
    using t [THEN conjunct1, THEN mp, OF h1]
    by (simp add: event_time_def window_def ssh_accepted_def)
  have b: "snd (process_event \<lparr>fail_threshold = 3, window_min = 5, alert_sudo = False\<rparr> 0
         (ssh_accepted 300001001 ''10.0.0.5'')
         (fst (process_event \<lparr>fail_threshold = 3, window_min = 5, alert_sudo = False\<rparr> 0
                (ssh_failed 1000 ''10.0.0.5'') engine0)))
     = []"
    using u [THEN conjunct2, THEN mp, OF h2] by (simp add: window_def)
  from r a b show ?thesis by (intro conjI)
qed

section \<open>Properties of the line follower\<close>

lemma read_line_empty: "(fst (read_line s) = []) = (s = [])"
  by (cases s) (auto split: prod.splits)

lemma read_line_no_end:
  "CHR 0x0A \<notin> set s \<Longrightarrow> CHR 0x0D \<notin> set s \<Longrightarrow> read_line s = (s, length s)"
  by (induction s) auto


lemma read_line_line:
  "CHR 0x0A \<in> set s \<or> CHR 0x0D \<in> set s \<Longrightarrow>
   fst (read_line s) = takeWhile (\<lambda>c. c \<noteq> CHR 0x0A \<and> c \<noteq> CHR 0x0D) s @ NL"
proof (induction s)
  case Nil
  then show ?case by simp
next
  case (Cons c cs)
  show ?case
  proof (cases "c = CHR 0x0A \<or> c = CHR 0x0D")
    case True
    then show ?thesis by auto
  next
    case False
    with Cons.prems have "CHR 0x0A \<in> set cs \<or> CHR 0x0D \<in> set cs" by auto
    then have "fst (read_line cs) = takeWhile (\<lambda>c. c \<noteq> CHR 0x0A \<and> c \<noteq> CHR 0x0D) cs @ NL"
      by (rule Cons.IH)
    with False show ?thesis by (simp add: case_prod_beta)
  qed
qed

lemma read_line_consumed:
  "CHR 0x0A \<in> set s \<or> CHR 0x0D \<in> set s \<Longrightarrow>
   snd (read_line s) =
     length (takeWhile (\<lambda>c. c \<noteq> CHR 0x0A \<and> c \<noteq> CHR 0x0D) s)
     + (if take 2 (dropWhile (\<lambda>c. c \<noteq> CHR 0x0A \<and> c \<noteq> CHR 0x0D) s) = [CHR 0x0D, CHR 0x0A]
        then 2 else 1)"
proof (induction s)
  case Nil
  then show ?case by simp
next
  case (Cons c cs)
  show ?case
  proof (cases "c = CHR 0x0A \<or> c = CHR 0x0D")
    case True
    then show ?thesis by (cases cs) auto
  next
    case False
    with Cons.prems have "CHR 0x0A \<in> set cs \<or> CHR 0x0D \<in> set cs" by auto
    then have "snd (read_line cs) =
     length (takeWhile (\<lambda>c. c \<noteq> CHR 0x0A \<and> c \<noteq> CHR 0x0D) cs)
     + (if take 2 (dropWhile (\<lambda>c. c \<noteq> CHR 0x0A \<and> c \<noteq> CHR 0x0D) cs) = [CHR 0x0D, CHR 0x0A]
        then 2 else 1)"
      by (rule Cons.IH)
    with False show ?thesis by (simp add: case_prod_beta)
  qed
qed

lemma readline_at_end: "readline txt (length txt) = ([], 0)"
  by (simp add: readline_def)

lemma readline_empty: "(fst (readline txt pos) = []) = (length txt \<le> pos)"
  by (simp add: readline_def read_line_empty)

lemma reopen_at_end:
  "f_handle st = None \<Longrightarrow> at_path sn = Some i \<Longrightarrow>
   follow_pass clean sn st =
     (\<lparr>f_handle = Some (i, length (text_of sn i)), current_inode = Some i\<rparr>, None)"
  by (simp add: follow_pass_def ensure_open_def read_or_check_def readline_at_end)

lemma missing_file_waits:
  "f_handle st = None \<Longrightarrow> at_path sn = None \<Longrightarrow> follow_pass clean sn st = (st, None)"
  by (simp add: follow_pass_def ensure_open_def)


text \<open>
  C7, as the source has it. In a pass with an open handle the follower yields exactly when
  unread text exists. What \<^verbatim>\<open>readline\<close> returns is the unread text up to the next line end (a
  line feed, a carriage return with a line feed, or a carriage return, given as a line
  feed) or, when the unread text has no line end, all of it; the generator yields it after
  its cleaning, \<^verbatim>\<open>rstrip("\n")\<close> in auth\_log\_monitor.py and \<^verbatim>\<open>strip()\<close> in simple\_alerts.py.
  So unterminated text at the end of the file is yielded at once, and the read position
  moves past it, so that its completion is yielded later as an item of its own.
\<close>

theorem pass_yields_unread_text:
  assumes "f_handle st = Some (i, pos)"
  shows "snd (follow_pass clean sn st) =
           (if pos < length (text_of sn i)
            then Some (clean (fst (readline (text_of sn i) pos))) else None)
     \<and> (pos < length (text_of sn i) \<longrightarrow>
          f_handle (fst (follow_pass clean sn st))
            = Some (i, pos + snd (readline (text_of sn i) pos)))
     \<and> (CHR 0x0A \<notin> set (drop pos (text_of sn i)) \<and> CHR 0x0D \<notin> set (drop pos (text_of sn i)) \<longrightarrow>
          readline (text_of sn i) pos
            = (drop pos (text_of sn i), length (drop pos (text_of sn i))))
     \<and> (CHR 0x0A \<in> set (drop pos (text_of sn i)) \<or> CHR 0x0D \<in> set (drop pos (text_of sn i)) \<longrightarrow>
          readline (text_of sn i) pos
            = (takeWhile (\<lambda>c. c \<noteq> CHR 0x0A \<and> c \<noteq> CHR 0x0D) (drop pos (text_of sn i)) @ NL,
               length (takeWhile (\<lambda>c. c \<noteq> CHR 0x0A \<and> c \<noteq> CHR 0x0D) (drop pos (text_of sn i)))
               + (if take 2 (dropWhile (\<lambda>c. c \<noteq> CHR 0x0A \<and> c \<noteq> CHR 0x0D)
                               (drop pos (text_of sn i))) = [CHR 0x0D, CHR 0x0A]
                  then 2 else 1)))"
proof -
  have e: "(fst (readline (text_of sn i) pos) = []) = (\<not> pos < length (text_of sn i))"
    by (simp add: readline_empty not_less)
  have p: "follow_pass clean sn st = read_or_check clean sn st"
    using assms by (simp add: follow_pass_def ensure_open_def)
  have a: "snd (follow_pass clean sn st) =
           (if pos < length (text_of sn i)
            then Some (clean (fst (readline (text_of sn i) pos))) else None)"
    using assms e by (simp add: p read_or_check_def Let_def case_prod_beta)
  have b: "pos < length (text_of sn i) \<longrightarrow>
          f_handle (fst (follow_pass clean sn st))
            = Some (i, pos + snd (readline (text_of sn i) pos))"
    using assms e by (simp add: p read_or_check_def Let_def case_prod_beta)
  have c: "CHR 0x0A \<notin> set (drop pos (text_of sn i)) \<and> CHR 0x0D \<notin> set (drop pos (text_of sn i)) \<longrightarrow>
          readline (text_of sn i) pos
            = (drop pos (text_of sn i), length (drop pos (text_of sn i)))"
    unfolding readline_def using read_line_no_end [of "drop pos (text_of sn i)"] by blast
  have d: "CHR 0x0A \<in> set (drop pos (text_of sn i)) \<or> CHR 0x0D \<in> set (drop pos (text_of sn i)) \<longrightarrow>
          readline (text_of sn i) pos
            = (takeWhile (\<lambda>c. c \<noteq> CHR 0x0A \<and> c \<noteq> CHR 0x0D) (drop pos (text_of sn i)) @ NL,
               length (takeWhile (\<lambda>c. c \<noteq> CHR 0x0A \<and> c \<noteq> CHR 0x0D) (drop pos (text_of sn i)))
               + (if take 2 (dropWhile (\<lambda>c. c \<noteq> CHR 0x0A \<and> c \<noteq> CHR 0x0D)
                               (drop pos (text_of sn i))) = [CHR 0x0D, CHR 0x0A]
                  then 2 else 1))"
  proof
    assume h: "CHR 0x0A \<in> set (drop pos (text_of sn i)) \<or> CHR 0x0D \<in> set (drop pos (text_of sn i))"
    show "readline (text_of sn i) pos
            = (takeWhile (\<lambda>c. c \<noteq> CHR 0x0A \<and> c \<noteq> CHR 0x0D) (drop pos (text_of sn i)) @ NL,
               length (takeWhile (\<lambda>c. c \<noteq> CHR 0x0A \<and> c \<noteq> CHR 0x0D) (drop pos (text_of sn i)))
               + (if take 2 (dropWhile (\<lambda>c. c \<noteq> CHR 0x0A \<and> c \<noteq> CHR 0x0D)
                               (drop pos (text_of sn i))) = [CHR 0x0D, CHR 0x0A]
                  then 2 else 1))"
      unfolding readline_def
      using read_line_line [OF h] read_line_consumed [OF h]
      by (simp only: prod_eq_iff fst_conv snd_conv)
  qed
  from a b c d show ?thesis by (intro conjI)
qed

text \<open>A file holding a line ended by a carriage return, a line ended by a line feed and an
  unterminated rest: the passes at positions 0, 3 and 6 yield the three pieces, the pass at
  the end nothing.\<close>

theorem pass_yields_unread_text_witness:
  "snd (follow_pass rstrip_newline (snap (Some 1) [(1, ''ab'' @ [CHR 0x0D] @ ''cd'' @ NL @ ''ef'')])
          \<lparr>f_handle = Some (1, 0), current_inode = Some 1\<rparr>) = Some ''ab''
   \<and> snd (follow_pass rstrip_newline (snap (Some 1) [(1, ''ab'' @ [CHR 0x0D] @ ''cd'' @ NL @ ''ef'')])
          \<lparr>f_handle = Some (1, 3), current_inode = Some 1\<rparr>) = Some ''cd''
   \<and> snd (follow_pass rstrip_newline (snap (Some 1) [(1, ''ab'' @ [CHR 0x0D] @ ''cd'' @ NL @ ''ef'')])
          \<lparr>f_handle = Some (1, 6), current_inode = Some 1\<rparr>) = Some ''ef''
   \<and> snd (follow_pass rstrip_newline (snap (Some 1) [(1, ''ab'' @ [CHR 0x0D] @ ''cd'' @ NL @ ''ef'')])
          \<lparr>f_handle = Some (1, 8), current_inode = Some 1\<rparr>) = None"
proof -
  have h0: "f_handle \<lparr>f_handle = Some (1, 0), current_inode = Some 1\<rparr> = Some (1, 0)" by simp
  have h3: "f_handle \<lparr>f_handle = Some (1, 3), current_inode = Some 1\<rparr> = Some (1, 3)" by simp
  have h6: "f_handle \<lparr>f_handle = Some (1, 6), current_inode = Some 1\<rparr> = Some (1, 6)" by simp
  have h8: "f_handle \<lparr>f_handle = Some (1, 8), current_inode = Some 1\<rparr> = Some (1, 8)" by simp
  note t0 = pass_yields_unread_text [OF h0, of rstrip_newline
      "snap (Some 1) [(1, ''ab'' @ [CHR 0x0D] @ ''cd'' @ NL @ ''ef'')]", THEN conjunct1]
  note t3 = pass_yields_unread_text [OF h3, of rstrip_newline
      "snap (Some 1) [(1, ''ab'' @ [CHR 0x0D] @ ''cd'' @ NL @ ''ef'')]", THEN conjunct1]
  note t6 = pass_yields_unread_text [OF h6, of rstrip_newline
      "snap (Some 1) [(1, ''ab'' @ [CHR 0x0D] @ ''cd'' @ NL @ ''ef'')]", THEN conjunct1]
  note t8 = pass_yields_unread_text [OF h8, of rstrip_newline
      "snap (Some 1) [(1, ''ab'' @ [CHR 0x0D] @ ''cd'' @ NL @ ''ef'')]", THEN conjunct1]
  show ?thesis
    using t0 t3 t6 t8 by (simp add: snap_def readline_def rstrip_newline_def)
qed

text \<open>Partial data is not held back: \<open>abc\<close> is written without a line feed and later
  completed to the line \<open>abcdef\<close>; both generators yield \<open>abc\<close> and then \<open>def\<close>.\<close>

theorem partial_line_counterexample:
  "follow_file rstrip_newline (snap (Some 1) [(1, [])])
     [snap (Some 1) [(1, [])], snap (Some 1) [(1, ''abc'')], snap (Some 1) [(1, ''abcdef'' @ NL)]]
     = (\<lparr>f_handle = Some (1, 7), current_inode = Some 1\<rparr>, [''abc'', ''def''])
   \<and> follow_file strip (snap (Some 1) [(1, [])])
     [snap (Some 1) [(1, [])], snap (Some 1) [(1, ''abc'')], snap (Some 1) [(1, ''abcdef'' @ NL)]]
     = (\<lparr>f_handle = Some (1, 7), current_inode = Some 1\<rparr>, [''abc'', ''def''])"
  by (simp add: follow_file_def follow_pass_def ensure_open_def read_or_check_def readline_def
      snap_def rstrip_newline_def strip_def isspace_def Let_def)

text \<open>
  C1. The file of inode 1 is rotated: the path now names inode 2, which already holds the
  line \<open>new1\<close> when the follower reopens. The reopening seeks to the end of the new file
  (position 5), as \<open>reopen_at_end\<close> says of every open, so \<open>new1\<close> is never yielded; only
  \<open>new2\<close>, appended after the reopening, is.
\<close>

theorem rotation_loses_lines:
  "follow_file rstrip_newline (snap (Some 1) [(1, ''old'' @ NL)])
       [snap (Some 1) [(1, ''old'' @ NL)],
        snap (Some 2) [(1, ''old'' @ NL), (2, ''new1'' @ NL)],
        snap (Some 2) [(1, ''old'' @ NL), (2, ''new1'' @ NL)],
        snap (Some 2) [(1, ''old'' @ NL), (2, ''new1'' @ NL @ ''new2'' @ NL)],
        snap (Some 2) [(1, ''old'' @ NL), (2, ''new1'' @ NL @ ''new2'' @ NL)]]
     = (\<lparr>f_handle = Some (2, 10), current_inode = Some 2\<rparr>, [''new2''])
   \<and> follow_file strip (snap (Some 1) [(1, ''old'' @ NL)])
       [snap (Some 1) [(1, ''old'' @ NL)],
        snap (Some 2) [(1, ''old'' @ NL), (2, ''new1'' @ NL)],
        snap (Some 2) [(1, ''old'' @ NL), (2, ''new1'' @ NL)],
        snap (Some 2) [(1, ''old'' @ NL), (2, ''new1'' @ NL @ ''new2'' @ NL)],
        snap (Some 2) [(1, ''old'' @ NL), (2, ''new1'' @ NL @ ''new2'' @ NL)]]
     = (\<lparr>f_handle = Some (2, 10), current_inode = Some 2\<rparr>, [''new2''])
   \<and> follow_pass rstrip_newline (snap (Some 2) [(1, ''old'' @ NL), (2, ''new1'' @ NL)])
       \<lparr>f_handle = None, current_inode = Some 1\<rparr>
     = (\<lparr>f_handle = Some (2, 5), current_inode = Some 2\<rparr>, None)"
  by (simp add: follow_file_def follow_pass_def ensure_open_def read_or_check_def readline_def
      snap_def rstrip_newline_def strip_def isspace_def Let_def)

section \<open>Properties of the collector\<close>

subsection \<open>Text mode\<close>

text \<open>Encoding undoes the strict decoder, and a text decoded from bytes without a carriage
  return has none.\<close>

lemma decode_utf8_ascii: "list_all (\<lambda>b. b < 128) bs \<Longrightarrow> decode_utf8 bs = Some bs"
  by (induction bs) (simp_all add: decode_utf8.simps(2))

lemma universal_newlines_no_cr: "13 \<notin> set s \<Longrightarrow> universal_newlines s = s"
  by (induction s rule: universal_newlines.induct) auto

lemma encode2:
  assumes "194 \<le> b" "b < 224" "continuation c"
  shows "encode_char ((b - 192) * 64 + (c - 128)) = [b, c]"
proof -
  define x y where "x = b - 192" and "y = c - 128"
  have x: "2 \<le> x" "x < 32" "b = 192 + x" using assms unfolding x_def by arith+
  have y: "y < 64" "c = 128 + y" using assms unfolding y_def continuation_def by arith+
  have d: "(x * 64 + y) div 64 = x" using y(1) by simp
  have m: "(x * 64 + y) mod 64 = y" using y(1) by simp
  have lo: "\<not> x * 64 + y < 128" using x(1) by simp
  have hi: "x * 64 + y < 2048" using x(2) y(1) by simp
  show ?thesis
    unfolding x_def [symmetric] y_def [symmetric] encode_char_def
    using lo hi d m x(3) y(2) by simp
qed


lemma encode3:
  assumes "224 \<le> b" "b < 240" "second_of3 b c" "continuation d"
  shows "encode_char ((b - 224) * 4096 + (c - 128) * 64 + (d - 128)) = [b, c, d]"
    and "128 \<le> (b - 224) * 4096 + (c - 128) * 64 + (d - 128)"
proof -
  define x y z where "x = b - 224" and "y = c - 128" and "z = d - 128"
  have x: "x < 16" "b = 224 + x" using assms(1,2) unfolding x_def by arith+
  have c: "128 \<le> c" "c < 192"
    using assms(3) unfolding second_of3_def continuation_def by (auto split: if_splits)
  have y: "y < 64" "c = 128 + y" using c unfolding y_def by arith+
  have y0: "x = 0 \<Longrightarrow> 32 \<le> y"
    using assms(1,3) unfolding second_of3_def x_def y_def by (auto split: if_splits)
  have y13: "x = 13 \<Longrightarrow> y < 32"
    using assms(1,3) unfolding second_of3_def x_def y_def by (auto split: if_splits)
  have z: "z < 64" "d = 128 + z" using assms(4) unfolding z_def continuation_def by arith+
  have lo: "2048 \<le> x * 4096 + y * 64 + z"
    using y0 by (cases "x = 0") auto
  have sur: "\<not> (55296 \<le> x * 4096 + y * 64 + z \<and> x * 4096 + y * 64 + z < 57344)"
  proof (cases "x = 13")
    case True
    with y13 z(1) show ?thesis by simp
  next
    case False
    then consider "x \<le> 12" | "14 \<le> x" by arith
    then show ?thesis
    proof cases
      case 1
      then have "x * 4096 \<le> 12 * 4096" by simp
      with y(1) z(1) show ?thesis by simp
    next
      case 2
      then have "14 * 4096 \<le> x * 4096" by simp
      then show ?thesis by simp
    qed
  qed
  have hi: "x * 4096 + y * 64 + z < 65536"
  proof -
    from x(1) have "x * 4096 \<le> 15 * 4096" by simp
    with y(1) z(1) show ?thesis by simp
  qed
  have yz: "y * 64 + z < 4096" using y(1) z(1) by simp
  have d1: "(x * 4096 + y * 64 + z) div 4096 = x"
    using yz by (simp add: add.assoc)
  have "(x * 4096 + y * 64 + z) div 64 = x * 64 + y"
    using z(1) by simp
  then have d2: "(x * 4096 + y * 64 + z) div 64 mod 64 = y"
    using y(1) by simp
  have d3: "(x * 4096 + y * 64 + z) mod 64 = z"
    using z(1) by (simp add: mod_mult_self3 [of _ 64] mod_add_left_eq [symmetric])
  show "encode_char ((b - 224) * 4096 + (c - 128) * 64 + (d - 128)) = [b, c, d]"
    unfolding x_def [symmetric] y_def [symmetric] z_def [symmetric] encode_char_def
    using lo sur hi d1 d2 d3 x(2) y(2) z(2) by simp
  show "128 \<le> (b - 224) * 4096 + (c - 128) * 64 + (d - 128)"
    unfolding x_def [symmetric] y_def [symmetric] z_def [symmetric] using lo by simp
qed


lemma encode4:
  assumes "240 \<le> b" "b < 245" "second_of4 b c" "continuation d" "continuation e"
  shows "encode_char ((b - 240) * 262144 + (c - 128) * 4096 + (d - 128) * 64 + (e - 128))
           = [b, c, d, e]"
    and "128 \<le> (b - 240) * 262144 + (c - 128) * 4096 + (d - 128) * 64 + (e - 128)"
proof -
  define x y z w where "x = b - 240" and "y = c - 128" and "z = d - 128" and "w = e - 128"
  have x: "x < 5" "b = 240 + x" using assms(1,2) unfolding x_def by arith+
  have c: "128 \<le> c" "c < 192"
    using assms(3) unfolding second_of4_def continuation_def by (auto split: if_splits)
  have y: "y < 64" "c = 128 + y" using c unfolding y_def by arith+
  have y0: "x = 0 \<Longrightarrow> 16 \<le> y"
    using assms(1,3) unfolding second_of4_def x_def y_def by (auto split: if_splits)
  have z: "z < 64" "d = 128 + z" using assms(4) unfolding z_def continuation_def by arith+
  have w: "w < 64" "e = 128 + w" using assms(5) unfolding w_def continuation_def by arith+
  have lo: "65536 \<le> x * 262144 + y * 4096 + z * 64 + w"
    using y0 by (cases "x = 0") auto
  have zw: "z * 64 + w < 4096" using z(1) w(1) by simp
  have yzw: "y * 4096 + z * 64 + w < 262144" using y(1) zw by simp
  have d1: "(x * 262144 + y * 4096 + z * 64 + w) div 262144 = x"
    using yzw by (simp add: add.assoc)
  have "(x * 262144 + y * 4096 + z * 64 + w) div 4096 = x * 64 + y"
    using zw by (simp add: add.assoc)
  then have d2: "(x * 262144 + y * 4096 + z * 64 + w) div 4096 mod 64 = y"
    using y(1) by simp
  have e3: "(x * 262144 + y * 4096 + z * 64 + w) div 64 = z + 64 * (x * 64 + y)"
    using w(1) by simp
  have d3: "(x * 262144 + y * 4096 + z * 64 + w) div 64 mod 64 = z"
    unfolding e3 using z(1) by (simp only: mod_mult_self2 mod_less)
  have e4: "x * 262144 + y * 4096 + z * 64 + w = w + 64 * (x * 4096 + y * 64 + z)"
    by simp
  have d4: "(x * 262144 + y * 4096 + z * 64 + w) mod 64 = w"
    unfolding e4 using w(1) by (simp only: mod_mult_self2 mod_less)
  show "encode_char ((b - 240) * 262144 + (c - 128) * 4096 + (d - 128) * 64 + (e - 128))
           = [b, c, d, e]"
    unfolding x_def [symmetric] y_def [symmetric] z_def [symmetric] w_def [symmetric] encode_char_def
    using lo d1 d2 d3 d4 x(2) y(2) z(2) w(2) by simp
  show "128 \<le> (b - 240) * 262144 + (c - 128) * 4096 + (d - 128) * 64 + (e - 128)"
    unfolding x_def [symmetric] y_def [symmetric] z_def [symmetric] w_def [symmetric]
    using lo by simp
qed

lemma encode1: "b < 128 \<Longrightarrow> encode_char b = [b]"
  by (simp add: encode_char_def)

lemma encode2_ge: "194 \<le> b \<Longrightarrow> b < 224 \<Longrightarrow> continuation c \<Longrightarrow> 128 \<le> (b - 192) * 64 + (c - 128)"
  by simp

lemma decode_utf8_inverse:
  "decode_utf8 bs = Some s \<Longrightarrow>
   concat (map encode_char s) = bs \<and> (13 \<notin> set bs \<longrightarrow> 13 \<notin> set s)"
proof (induction "length bs" arbitrary: bs s rule: less_induct)
  case less
  show ?case
  proof (cases bs)
    case Nil
    with less.prems show ?thesis by simp
  next
    case (Cons b r0)
    note bs = Cons
    consider (one) "b < 128" | (two) "194 \<le> b" "b < 224" | (three) "224 \<le> b" "b < 240"
      | (four) "240 \<le> b" "b < 245" | (bad) "128 \<le> b" "b < 194" | (worse) "245 \<le> b"
      by arith
    then show ?thesis
    proof cases
      case one
      with less.prems bs obtain s' where d: "decode_utf8 r0 = Some s'" and s: "s = b # s'"
        by (auto simp add: decode_utf8.simps(2))
      have "concat (map encode_char s') = r0 \<and> (13 \<notin> set r0 \<longrightarrow> 13 \<notin> set s')"
        using less.hyps [of r0 s'] d bs by simp
      with one s bs show ?thesis by (auto simp add: encode1)
    next
      case two
      with less.prems bs obtain c r s' where r0: "r0 = c # r" and c: "continuation c"
        and d: "decode_utf8 r = Some s'" and s: "s = ((b - 192) * 64 + (c - 128)) # s'"
        by (auto simp add: decode_utf8.simps(2) split: list.splits if_splits)
      have ih: "concat (map encode_char s') = r \<and> (13 \<notin> set r \<longrightarrow> 13 \<notin> set s')"
        using less.hyps [of r s'] d bs r0 by simp
      have ge: "128 \<le> (b - 192) * 64 + (c - 128)" using two c by (simp add: encode2_ge)
      from ih encode2 [OF two c] ge s bs r0 show ?thesis by auto
    next
      case three
      with less.prems bs obtain c d r s' where r0: "r0 = c # d # r" and c: "second_of3 b c"
        and dd: "continuation d" and dec: "decode_utf8 r = Some s'"
        and s: "s = ((b - 224) * 4096 + (c - 128) * 64 + (d - 128)) # s'"
        by (auto simp add: decode_utf8.simps(2) split: list.splits if_splits)
      have ih: "concat (map encode_char s') = r \<and> (13 \<notin> set r \<longrightarrow> 13 \<notin> set s')"
        using less.hyps [of r s'] dec bs r0 by simp
      from ih encode3 [OF three c dd] s bs r0 show ?thesis by auto
    next
      case four
      with less.prems bs obtain c d e r s' where r0: "r0 = c # d # e # r" and c: "second_of4 b c"
        and dd: "continuation d" and ee: "continuation e" and dec: "decode_utf8 r = Some s'"
        and s: "s = ((b - 240) * 262144 + (c - 128) * 4096 + (d - 128) * 64 + (e - 128)) # s'"
        by (auto simp add: decode_utf8.simps(2) split: list.splits if_splits)
      have ih: "concat (map encode_char s') = r \<and> (13 \<notin> set r \<longrightarrow> 13 \<notin> set s')"
        using less.hyps [of r s'] dec bs r0 by simp
      from ih encode4 [OF four c dd ee] s bs r0 show ?thesis by auto
    next
      case bad
      with less.prems bs show ?thesis by (simp add: decode_utf8.simps(2))
    next
      case worse
      with less.prems bs show ?thesis by (simp add: decode_utf8.simps(2))
    qed
  qed
qed

lemma of_char_CR: "((of_char c :: nat) = 13) = (c = CHR 0x0D)"
proof
  assume "(of_char c :: nat) = 13"
  moreover have "(of_char (CHR 0x0D) :: nat) = 13" by simp
  ultimately have "(of_char c :: nat) = of_char (CHR 0x0D)" by simp
  then show "c = CHR 0x0D" by (simp only: of_char_eq_iff)
next
  assume "c = CHR 0x0D"
  then show "(of_char c :: nat) = 13" by simp
qed

lemma run_plain:
  assumes "plain_utf8 bytes"
  shows "\<exists>s. run (Exited rc bytes) = Inr (Completed rc s) \<and> encode_utf8 s = bytes"
proof -
  from assms obtain s where d: "decode_utf8 (map of_char bytes) = Some s"
    by (auto simp add: plain_utf8_def)
  from assms have "13 \<notin> set (map of_char bytes :: nat list)"
    by (auto simp add: plain_utf8_def of_char_CR)
  with decode_utf8_inverse [OF d]
  have c: "concat (map encode_char s) = map of_char bytes" and n: "13 \<notin> set s" by simp_all
  have "encode_utf8 s = map char_of (map of_char bytes :: nat list)"
    by (simp add: encode_utf8_def c)
  also have "\<dots> = bytes" by (simp add: comp_def)
  finally have "encode_utf8 s = bytes" .
  moreover have "run (Exited rc bytes) = Inr (Completed rc s)"
    by (simp add: run_def d universal_newlines_no_cr [OF n])
  ultimately show ?thesis by blast
qed

lemma plain_utf8_ascii:
  "list_all (\<lambda>c. (of_char c :: nat) < 128) bytes \<Longrightarrow> CHR 0x0D \<notin> set bytes \<Longrightarrow> plain_utf8 bytes"
  by (simp add: plain_utf8_def decode_utf8_ascii list_all_iff)

lemma run_empty [simp]: "run (Exited rc []) = Inr (Completed rc [])"
  by (simp add: run_def)

lemma run_outlives [simp]: "run Outlives_timeout = Inl TimeoutExpired"
  by (simp add: run_def)

lemma run_tail_on_Unreachable [simp]: "run_tail_on Unreachable start = Inr (Completed 255 [])"
  by (simp add: run_tail_on_def)

lemma run_tail_on_Hung [simp]: "run_tail_on Hung start = Inl TimeoutExpired"
  by (simp add: run_tail_on_def)

lemma run_tail_on_absent [simp]: "run_tail_on (Reachable None) start = Inr (Completed 0 [])"
  by (simp add: run_tail_on_def)

lemma encode_utf8_empty [simp]: "encode_utf8 [] = []"
  by (simp add: encode_utf8_def)

subsection \<open>The size query on a reachable host\<close>

lemma of_char_digit: "d < 10 \<Longrightarrow> (of_char (char_of (48 + d :: nat)) :: nat) = 48 + d"
  by simp

lemma decimal_nonempty: "decimal n \<noteq> []"
  by (subst decimal.simps) simp

lemma decimal_digits: "list_all isdigit_char (map of_char (decimal n))"
proof (induction n rule: decimal.induct)
  case (1 n)
  show ?case
  proof (cases "n < 10")
    case True
    then show ?thesis by (subst decimal.simps) (simp add: isdigit_char_def)
  next
    case False
    then have "list_all isdigit_char (map of_char (decimal (n div 10)))" using 1 by simp
    moreover have "isdigit_char (of_char (char_of (48 + n mod 10)))"
      by (simp add: isdigit_char_def)
    ultimately show ?thesis using False by (subst decimal.simps) simp
  qed
qed

lemma int_of_digits_snoc:
  "int_of_digits (s @ [c]) = 10 * int_of_digits s + (int c - 48)"
  by (simp add: int_of_digits_def)

lemma int_of_digits_decimal: "int_of_digits (map of_char (decimal n)) = int n"
proof (induction n rule: decimal.induct)
  case (1 n)
  show ?case
  proof (cases "n < 10")
    case True
    then show ?thesis by (subst decimal.simps) (simp add: int_of_digits_def)
  next
    case False
    then have ih: "int_of_digits (map of_char (decimal (n div 10))) = int (n div 10)"
      using 1 by simp
    have "n mod 10 < 10" by simp
    then have oc: "(of_char (char_of (48 + n mod 10)) :: nat) = 48 + n mod 10"
      by (rule of_char_digit)
    have "decimal n = decimal (n div 10) @ [char_of (48 + n mod 10)]"
      using False by (subst decimal.simps) simp
    then have "int_of_digits (map of_char (decimal n))
                 = 10 * int (n div 10) + (int (48 + n mod 10) - 48)"
      by (simp only: map_append list.map int_of_digits_snoc ih oc)
    also have "\<dots> = int n" by presburger
    finally show ?thesis .
  qed
qed

lemma digit_not_space: "isdigit_char c \<Longrightarrow> \<not> str_isspace c"
  by (auto simp add: isdigit_char_def str_isspace_def)

lemma digit_ascii: "isdigit_char c \<Longrightarrow> c < 128 \<and> c \<noteq> 13"
  by (auto simp add: isdigit_char_def)

lemma strip_digits_newline:
  assumes "list_all isdigit_char s" and "s \<noteq> []"
  shows "str_strip (s @ [10]) = s"
proof -
  obtain c cs where s: "s = c # cs" using assms(2) by (cases s) auto
  then have c: "\<not> str_isspace c" using assms(1) by (simp add: digit_not_space)
  have l: "\<not> str_isspace (last s)"
    using assms by (simp add: digit_not_space list_all_iff)
  have "dropWhile str_isspace (s @ [10]) = s @ [10]"
    using s c by simp
  moreover have "rev (s @ [10]) = 10 # rev s" by simp
  moreover have "dropWhile str_isspace (10 # rev s) = rev s"
    using l assms(2) by (cases "rev s") (auto simp add: str_isspace_def last_rev)
  ultimately show ?thesis by (simp add: str_strip_def)
qed

lemma run_stat_reachable:
  "run_stat (Reachable (Some bytes)) =
     Inr (Completed 0 (map of_char (decimal (length bytes)) @ [10]))"
proof -
  have a: "list_all (\<lambda>b. b < 128) (map of_char (decimal (length bytes)) @ [10 :: nat])"
    using decimal_digits [of "length bytes"] by (auto simp add: list_all_iff dest: digit_ascii)
  have n: "13 \<notin> set (map of_char (decimal (length bytes)) @ [10 :: nat])"
    using decimal_digits [of "length bytes"]
    by (auto simp add: list_all_iff isdigit_char_def of_char_CR)
  show ?thesis
    using decode_utf8_ascii [OF a] universal_newlines_no_cr [OF n]
    by (simp add: run_stat_def run_def)
qed

lemma remote_stat_size_reachable:
  "remote_stat_size (run_stat (Reachable (Some bytes))) = Inr (Some (int (length bytes)))"
  by (simp add: remote_stat_size_def run_stat_reachable strip_digits_newline decimal_digits
      decimal_nonempty isdigit_def int_of_digits_decimal Let_def)

lemma remote_stat_size_missing: "remote_stat_size (run_stat (Reachable None)) = Inr None"
  by (simp add: remote_stat_size_def run_stat_def)

lemma remote_stat_size_unreachable: "remote_stat_size (run_stat Unreachable) = Inr None"
  by (simp add: remote_stat_size_def run_stat_def)

lemma remote_stat_size_hung: "remote_stat_size (run_stat Hung) = Inl TimeoutExpired"
  by (simp add: remote_stat_size_def run_stat_def)

subsection \<open>The cases of a visit\<close>

lemma local_out_neq_tmp: "local_out src \<noteq> local_tmp src"
proof
  assume "local_out src = local_tmp src"
  then have "length (local_out src) = length (local_tmp src)" by simp
  then show False by (simp add: local_out_def local_tmp_def)
qed

lemma process_source_stat_raises:
  "remote_stat_size stat_result = Inl e \<Longrightarrow>
   process_source src stat_result run_tail st = (Some e, st)"
  by (simp add: process_source_def)

lemma process_source_unreachable:
  "remote_stat_size stat_result = Inr None \<Longrightarrow>
   process_source src stat_result run_tail st = (None, log_status src Unreachable_or_missing st)"
  by (simp add: process_source_def)

lemma process_source_no_change:
  "remote_stat_size stat_result = Inr (Some S) \<Longrightarrow>
   S = effective_offset S (stored_offset st src) \<Longrightarrow>
   process_source src stat_result run_tail st = (None, log_status src (No_change S) st)"
  by (simp add: process_source_def effective_offset_def stored_offset_def Let_def)

lemma process_source_fetch_raises:
  "remote_stat_size stat_result = Inr (Some S) \<Longrightarrow>
   S \<noteq> effective_offset S (stored_offset st src) \<Longrightarrow>
   sftp_read_range run_tail (effective_offset S (stored_offset st src)) = Inl e \<Longrightarrow>
   process_source src stat_result run_tail st = (Some e, st)"
  by (simp add: process_source_def effective_offset_def stored_offset_def Let_def)

lemma process_source_fetch_failed:
  "remote_stat_size stat_result = Inr (Some S) \<Longrightarrow>
   S \<noteq> effective_offset S (stored_offset st src) \<Longrightarrow>
   sftp_read_range run_tail (effective_offset S (stored_offset st src)) = Inr None \<Longrightarrow>
   process_source src stat_result run_tail st =
     (None, log_status src (Fetch_failed S (effective_offset S (stored_offset st src))) st)"
  by (simp add: process_source_def effective_offset_def stored_offset_def Let_def)

lemma process_source_ok:
  "remote_stat_size stat_result = Inr (Some S) \<Longrightarrow>
   S \<noteq> effective_offset S (stored_offset st src) \<Longrightarrow>
   sftp_read_range run_tail (effective_offset S (stored_offset st src)) = Inr (Some bytes) \<Longrightarrow>
   process_source src stat_result run_tail st =
     (None, \<lparr>offsets = (offsets st)(name src \<mapsto> S),
             offsets_file = Some ((offsets st)(name src \<mapsto> S)),
             files = (files st)(local_out src \<mapsto> mirror st src @ bytes, local_tmp src := None),
             status_log = status_log st @
               [\<lparr>st_source = name src, st_host = host src, st_status = Ok_appended (length bytes) S\<rparr>]\<rparr>)"
  using local_out_neq_tmp [of src]
  by (simp add: process_source_def effective_offset_def stored_offset_def Let_def append_file_def
      log_status_def mirror_def fun_upd_twist)

lemma log_status_keeps [simp]:
  "offsets (log_status src oc st) = offsets st"
  "files (log_status src oc st) = files st"
  "offsets_file (log_status src oc st) = offsets_file st"
  "stored_offset (log_status src oc st) s = stored_offset st s"
  "mirror (log_status src oc st) s = mirror st s"
  by (simp_all add: log_status_def stored_offset_def mirror_def)


lemma stored_offset_ok [simp]:
  "stored_offset \<lparr>offsets = (offsets st)(name src \<mapsto> S), offsets_file = x, files = y, status_log = z\<rparr> src = S"
  by (simp add: stored_offset_def)

lemma mirror_ok [simp]:
  "mirror \<lparr>offsets = w, offsets_file = x,
           files = (files st)(local_out src \<mapsto> m, local_tmp src := None), status_log = z\<rparr> src = m"
  using local_out_neq_tmp [of src] by (simp add: mirror_def)

lemma sftp_read_range_reachable:
  assumes "0 \<le> off" and "plain_utf8 (drop (nat off) remote)"
  shows "sftp_read_range (run_tail_on (Reachable (Some remote))) off
           = Inr (Some (drop (nat off) remote))"
proof -
  from run_plain [OF assms(2), of 0] obtain s
    where "run (Exited 0 (drop (nat off) remote)) = Inr (Completed 0 s)"
      and "encode_utf8 s = drop (nat off) remote" by blast
  then show ?thesis using assms(1) by (simp add: sftp_read_range_def run_tail_on_def)
qed

lemma sftp_read_range_absent:
  "sftp_read_range (run_tail_on (Reachable None)) off = Inr (Some [])"
  by (simp add: sftp_read_range_def)

lemma sftp_read_range_nonzero:
  "run_tail (off + 1) = Inr (Completed rc out) \<Longrightarrow> rc \<noteq> 0 \<Longrightarrow>
   sftp_read_range run_tail off = Inr None"
  by (simp add: sftp_read_range_def)

lemma fetch_cases:
  obtains (raises) e where "sftp_read_range run_tail off = Inl e"
  | (failed) "sftp_read_range run_tail off = Inr None"
  | (fetched) bytes where "sftp_read_range run_tail off = Inr (Some bytes)"
proof (cases "sftp_read_range run_tail off")
  case (Inl e)
  then show ?thesis by (rule raises)
next
  case (Inr b)
  then show ?thesis using failed fetched by (cases b) auto
qed

lemma stored_offset_collector0 [simp]: "stored_offset collector0 src = 0"
  by (simp add: stored_offset_def collector0_def)

lemma mirror_collector0 [simp]: "mirror collector0 src = []"
  by (simp add: mirror_def collector0_def)

lemma first_visit:
  assumes "remote \<noteq> []" and "plain_utf8 fetched"
  shows "process_source src (run_stat (Reachable (Some remote))) (run_tail_on (Reachable (Some fetched))) collector0
     = (None, \<lparr>offsets = (offsets collector0)(name src \<mapsto> int (length remote)),
             offsets_file = Some ((offsets collector0)(name src \<mapsto> int (length remote))),
             files = (files collector0)(local_out src \<mapsto> fetched, local_tmp src := None),
             status_log = status_log collector0 @
               [\<lparr>st_source = name src, st_host = host src,
                 st_status = Ok_appended (length fetched) (int (length remote))\<rparr>]\<rparr>)"
proof -
  have ne: "int (length remote) \<noteq> effective_offset (int (length remote)) (stored_offset collector0 src)"
    using assms by (simp add: effective_offset_def)
  have f: "sftp_read_range (run_tail_on (Reachable (Some fetched)))
             (effective_offset (int (length remote)) (stored_offset collector0 src)) = Inr (Some fetched)"
    using assms(2) by (simp add: effective_offset_def sftp_read_range_reachable)
  show ?thesis
    using process_source_ok [OF remote_stat_size_reachable ne f] by simp
qed


lemma stored_offset_collector_at [simp]: "stored_offset (collector_at src n m) src = n"
  by (simp add: stored_offset_def collector_at_def)

lemma mirror_collector_at [simp]: "mirror (collector_at src n m) src = m"
  by (simp add: mirror_def collector_at_def)


lemma visit_reachable:
  assumes "int (length remote) \<noteq> effective_offset (int (length remote)) (stored_offset st src)"
    and "0 \<le> effective_offset (int (length remote)) (stored_offset st src)"
    and "plain_utf8 (drop (nat (effective_offset (int (length remote)) (stored_offset st src))) fetched)"
  shows "process_source src (run_stat (Reachable (Some remote))) (run_tail_on (Reachable (Some fetched))) st
     = (None, \<lparr>offsets = (offsets st)(name src \<mapsto> int (length remote)),
             offsets_file = Some ((offsets st)(name src \<mapsto> int (length remote))),
             files = (files st)(local_out src \<mapsto> mirror st src @
                        drop (nat (effective_offset (int (length remote)) (stored_offset st src))) fetched,
                      local_tmp src := None),
             status_log = status_log st @
               [\<lparr>st_source = name src, st_host = host src,
                 st_status = Ok_appended
                   (length (drop (nat (effective_offset (int (length remote)) (stored_offset st src))) fetched))
                   (int (length remote))\<rparr>]\<rparr>)"
  using process_source_ok [OF remote_stat_size_reachable assms(1)
          sftp_read_range_reachable [OF assms(2) assms(3)]]
  by simp


lemma visit_absent_at_fetch:
  assumes "int (length remote) \<noteq> effective_offset (int (length remote)) (stored_offset st src)"
  shows "process_source src (run_stat (Reachable (Some remote))) (run_tail_on (Reachable None)) st
     = (None, \<lparr>offsets = (offsets st)(name src \<mapsto> int (length remote)),
             offsets_file = Some ((offsets st)(name src \<mapsto> int (length remote))),
             files = (files st)(local_out src \<mapsto> mirror st src, local_tmp src := None),
             status_log = status_log st @
               [\<lparr>st_source = name src, st_host = host src,
                 st_status = Ok_appended 0 (int (length remote))\<rparr>]\<rparr>)"
  using process_source_ok [OF remote_stat_size_reachable assms sftp_read_range_absent]
  by simp


lemma cycle_stat_raises:
  "remote_stat_size stat_result = Inl e \<Longrightarrow>
   cycle ((src, stat_result, run_tail) # rest) st = (Some e, st)"
  by (simp add: process_source_stat_raises)

lemma poll_loop_cycle_raises:
  "cycle c st = (Some e, st') \<Longrightarrow> poll_loop once (c # cs) st = (Some e, st', 0)"
  by simp

lemma sftp_read_range_hung: "sftp_read_range (run_tail_on Hung) off = Inl TimeoutExpired"
  by (simp add: sftp_read_range_def)


lemma startup_offsets_missing: "startup_offsets load_json None = Map.empty"
  by (simp add: startup_offsets_def)

lemma startup_offsets_unparsable:
  "load_json txt = Inl e \<Longrightarrow> startup_offsets load_json (Some txt) = Map.empty"
  by (simp add: startup_offsets_def)

lemma stored_offset_empty: "offsets st = Map.empty \<Longrightarrow> stored_offset st src = 0"
  by (simp add: stored_offset_def)

lemma refetch_from_zero:
  assumes "stored_offset st src = 0" and "remote \<noteq> []" and "plain_utf8 remote"
  shows "mirror (snd (process_source src (run_stat (Reachable (Some remote)))
            (run_tail_on (Reachable (Some remote))) st)) src = mirror st src @ remote"
proof -
  have ne: "int (length remote) \<noteq> effective_offset (int (length remote)) (stored_offset st src)"
    using assms by (simp add: effective_offset_def)
  have z: "0 \<le> effective_offset (int (length remote)) (stored_offset st src)"
    using assms by (simp add: effective_offset_def)
  have p: "plain_utf8 (drop (nat (effective_offset (int (length remote)) (stored_offset st src))) remote)"
    using assms by (simp add: effective_offset_def)
  show ?thesis
    using assms by (simp add: visit_reachable [OF ne z p] effective_offset_def)
qed

lemma encode_utf8_ascii:
  "list_all (\<lambda>c. (of_char c :: nat) < 128) bytes \<Longrightarrow> encode_utf8 (map of_char bytes) = bytes"
  by (induction bytes) (simp_all add: encode_utf8_def encode_char_def)

lemma plain_abc [simp]:
  "plain_utf8 ''abc''" "plain_utf8 ''ab''" "plain_utf8 ''abcde''" "plain_utf8 ''cde''"
  "plain_utf8 ''de''" "plain_utf8 []"
  by (simp_all add: plain_utf8_ascii)

lemma refetch_after_shrink:
  assumes "int (length remote) < stored_offset st src" and "remote \<noteq> []" and "plain_utf8 remote"
  shows "mirror (snd (process_source src (run_stat (Reachable (Some remote)))
            (run_tail_on (Reachable (Some remote))) st)) src = mirror st src @ remote"
proof -
  have ne: "int (length remote) \<noteq> effective_offset (int (length remote)) (stored_offset st src)"
    using assms by (simp add: effective_offset_def)
  have z: "0 \<le> effective_offset (int (length remote)) (stored_offset st src)"
    using assms by (simp add: effective_offset_def)
  have p: "plain_utf8 (drop (nat (effective_offset (int (length remote)) (stored_offset st src))) remote)"
    using assms by (simp add: effective_offset_def)
  show ?thesis
    using assms by (simp add: visit_reachable [OF ne z p] effective_offset_def)
qed

subsection \<open>Offsets and mirror files\<close>

text \<open>
  C2, as the source has it. A source is visited with remote size \<open>S\<close> at least its stored
  offset \<open>O\<close>. When \<open>S = O\<close> no fetch is made and only a \<open>no_change\<close> record is written. When
  \<open>O < S\<close> the stored offset becomes \<open>S\<close> exactly when the fetch succeeds and otherwise stays
  \<open>O\<close> with no file changed; on success the bytes appended to the mirror are the output of
  the fetch as \<^verbatim>\<open>run\<close> captured it in text mode, encoded again. When the remote file is the
  same for the size query and for the fetch and its bytes from \<open>O\<close> on are valid UTF-8
  without a carriage return, the bytes appended are the range from \<open>O\<close> to \<open>S\<close> as it is and
  the mirror grows by \<open>S - O\<close>.
\<close>

theorem offset_and_mirror_after_visit:
  assumes stat: "remote_stat_size stat_result = Inr (Some S)" and le: "stored_offset st src \<le> S"
  shows
   "(S = stored_offset st src \<longrightarrow>
       process_source src stat_result run_tail st = (None, log_status src (No_change S) st))
    \<and> (stored_offset st src < S \<longrightarrow>
         ((stored_offset (snd (process_source src stat_result run_tail st)) src = S)
            = (\<exists>bytes. sftp_read_range run_tail (stored_offset st src) = Inr (Some bytes)))
         \<and> ((\<nexists>bytes. sftp_read_range run_tail (stored_offset st src) = Inr (Some bytes)) \<longrightarrow>
               stored_offset (snd (process_source src stat_result run_tail st)) src = stored_offset st src
               \<and> files (snd (process_source src stat_result run_tail st)) = files st)
         \<and> (\<forall>bytes. sftp_read_range run_tail (stored_offset st src) = Inr (Some bytes) \<longrightarrow>
               mirror (snd (process_source src stat_result run_tail st)) src = mirror st src @ bytes))
    \<and> (0 \<le> stored_offset st src \<and> stat_result = run_stat (Reachable (Some remote))
          \<and> run_tail = run_tail_on (Reachable (Some remote))
          \<and> plain_utf8 (drop (nat (stored_offset st src)) remote) \<longrightarrow>
         stored_offset (snd (process_source src stat_result run_tail st)) src = S
         \<and> mirror (snd (process_source src stat_result run_tail st)) src
             = mirror st src @ drop (nat (stored_offset st src)) remote
         \<and> int (length (mirror (snd (process_source src stat_result run_tail st)) src))
             = int (length (mirror st src)) + (S - stored_offset st src))"
proof -
  have eff: "effective_offset S (stored_offset st src) = stored_offset st src"
    using le by (simp add: effective_offset_def)
  have A: "S = stored_offset st src \<longrightarrow>
       process_source src stat_result run_tail st = (None, log_status src (No_change S) st)"
    using process_source_no_change [OF stat, of st src run_tail] eff by simp
  have B: "stored_offset st src < S \<longrightarrow>
         ((stored_offset (snd (process_source src stat_result run_tail st)) src = S)
            = (\<exists>bytes. sftp_read_range run_tail (stored_offset st src) = Inr (Some bytes)))
         \<and> ((\<nexists>bytes. sftp_read_range run_tail (stored_offset st src) = Inr (Some bytes)) \<longrightarrow>
               stored_offset (snd (process_source src stat_result run_tail st)) src = stored_offset st src
               \<and> files (snd (process_source src stat_result run_tail st)) = files st)
         \<and> (\<forall>bytes. sftp_read_range run_tail (stored_offset st src) = Inr (Some bytes) \<longrightarrow>
               mirror (snd (process_source src stat_result run_tail st)) src = mirror st src @ bytes)"
  proof
    assume lt: "stored_offset st src < S"
    then have ne: "S \<noteq> effective_offset S (stored_offset st src)" using eff by simp
    show "((stored_offset (snd (process_source src stat_result run_tail st)) src = S)
            = (\<exists>bytes. sftp_read_range run_tail (stored_offset st src) = Inr (Some bytes)))
         \<and> ((\<nexists>bytes. sftp_read_range run_tail (stored_offset st src) = Inr (Some bytes)) \<longrightarrow>
               stored_offset (snd (process_source src stat_result run_tail st)) src = stored_offset st src
               \<and> files (snd (process_source src stat_result run_tail st)) = files st)
         \<and> (\<forall>bytes. sftp_read_range run_tail (stored_offset st src) = Inr (Some bytes) \<longrightarrow>
               mirror (snd (process_source src stat_result run_tail st)) src = mirror st src @ bytes)"
    proof (cases rule: fetch_cases [of run_tail "stored_offset st src"])
      case (raises e)
      with process_source_fetch_raises [OF stat ne, of run_tail e] eff lt
      show ?thesis by simp
    next
      case failed
      with process_source_fetch_failed [OF stat ne, of run_tail] eff lt
      show ?thesis by simp
    next
      case (fetched bytes)
      with process_source_ok [OF stat ne, of run_tail bytes] eff
      show ?thesis by simp
    qed
  qed
  have C: "0 \<le> stored_offset st src \<and> stat_result = run_stat (Reachable (Some remote))
          \<and> run_tail = run_tail_on (Reachable (Some remote))
          \<and> plain_utf8 (drop (nat (stored_offset st src)) remote) \<longrightarrow>
         stored_offset (snd (process_source src stat_result run_tail st)) src = S
         \<and> mirror (snd (process_source src stat_result run_tail st)) src
             = mirror st src @ drop (nat (stored_offset st src)) remote
         \<and> int (length (mirror (snd (process_source src stat_result run_tail st)) src))
             = int (length (mirror st src)) + (S - stored_offset st src)"
  proof
    assume h: "0 \<le> stored_offset st src \<and> stat_result = run_stat (Reachable (Some remote))
          \<and> run_tail = run_tail_on (Reachable (Some remote))
          \<and> plain_utf8 (drop (nat (stored_offset st src)) remote)"
    then have "remote_stat_size stat_result = Inr (Some (int (length remote)))"
      by (simp only: remote_stat_size_reachable)
    with stat have S: "S = int (length remote)" by simp
    have f: "sftp_read_range run_tail (stored_offset st src)
               = Inr (Some (drop (nat (stored_offset st src)) remote))"
      using h by (simp add: sftp_read_range_reachable)
    show "stored_offset (snd (process_source src stat_result run_tail st)) src = S
         \<and> mirror (snd (process_source src stat_result run_tail st)) src
             = mirror st src @ drop (nat (stored_offset st src)) remote
         \<and> int (length (mirror (snd (process_source src stat_result run_tail st)) src))
             = int (length (mirror st src)) + (S - stored_offset st src)"
    proof (cases "S = stored_offset st src")
      case True
      with A S h show ?thesis by simp
    next
      case False
      then have ne: "S \<noteq> effective_offset S (stored_offset st src)" using eff by simp
      from process_source_ok [OF stat ne, of run_tail] f eff S h le
      show ?thesis by simp
    qed
  qed
  from A B C show ?thesis by blast
qed

text \<open>A first visit mirrors the two bytes \<open>ab\<close>; the next visit finds five bytes and appends
  the three new ones.\<close>

theorem offset_and_mirror_after_visit_witness:
  "stored_offset (snd (process_source pi_source (run_stat (Reachable (Some ''ab'')))
       (run_tail_on (Reachable (Some ''ab''))) collector0)) pi_source = 2
   \<and> stored_offset (snd (process_source pi_source (run_stat (Reachable (Some ''abcde'')))
       (run_tail_on (Reachable (Some ''abcde'')))
       (snd (process_source pi_source (run_stat (Reachable (Some ''ab'')))
          (run_tail_on (Reachable (Some ''ab''))) collector0)))) pi_source = 5
   \<and> mirror (snd (process_source pi_source (run_stat (Reachable (Some ''abcde'')))
       (run_tail_on (Reachable (Some ''abcde'')))
       (snd (process_source pi_source (run_stat (Reachable (Some ''ab'')))
          (run_tail_on (Reachable (Some ''ab''))) collector0)))) pi_source = ''abcde''"
proof -
  have o: "stored_offset (snd (process_source pi_source (run_stat (Reachable (Some ''ab'')))
       (run_tail_on (Reachable (Some ''ab''))) collector0)) pi_source = 2"
    by (simp add: first_visit [of "''ab''" "''ab''" pi_source])
  have m: "mirror (snd (process_source pi_source (run_stat (Reachable (Some ''ab'')))
       (run_tail_on (Reachable (Some ''ab''))) collector0)) pi_source = ''ab''"
    by (simp add: first_visit [of "''ab''" "''ab''" pi_source])
  have stat: "remote_stat_size (run_stat (Reachable (Some ''abcde''))) = Inr (Some 5)"
    using remote_stat_size_reachable [of "''abcde''"] by simp
  have le: "stored_offset (snd (process_source pi_source (run_stat (Reachable (Some ''ab'')))
       (run_tail_on (Reachable (Some ''ab''))) collector0)) pi_source \<le> 5"
    using o by simp
  show ?thesis
    using offset_and_mirror_after_visit [OF stat le, of "run_tail_on (Reachable (Some ''abcde''))" "''abcde''"] o m
    by simp
qed



text \<open>The claim without these conditions fails. The size query sees three bytes, the file
  has five when \<^verbatim>\<open>tail\<close> runs: the offset becomes 3 and the mirror grows by 5. A file of the
  four bytes a, CR, LF, b is mirrored as the three bytes a, LF, b. A file holding the byte
  255 ends the visit with \<^verbatim>\<open>UnicodeDecodeError\<close>.\<close>

theorem mirror_growth_counterexample:
  "remote_stat_size (run_stat (Reachable (Some ''abc''))) = Inr (Some 3)
   \<and> stored_offset collector0 pi_source = 0
   \<and> fst (process_source pi_source (run_stat (Reachable (Some ''abc'')))
            (run_tail_on (Reachable (Some ''abcde''))) collector0) = None
   \<and> stored_offset (snd (process_source pi_source (run_stat (Reachable (Some ''abc'')))
            (run_tail_on (Reachable (Some ''abcde''))) collector0)) pi_source = 3
   \<and> mirror (snd (process_source pi_source (run_stat (Reachable (Some ''abc'')))
            (run_tail_on (Reachable (Some ''abcde''))) collector0)) pi_source = ''abcde''
   \<and> int (length (mirror (snd (process_source pi_source (run_stat (Reachable (Some ''abc'')))
            (run_tail_on (Reachable (Some ''abcde''))) collector0)) pi_source))
       \<noteq> int (length (mirror collector0 pi_source)) + (3 - 0)
   \<and> remote_stat_size (run_stat (Reachable (Some [CHR ''a'', CHR 0x0D, CHR 0x0A, CHR ''b''])))
       = Inr (Some 4)
   \<and> mirror (snd (process_source pi_source
            (run_stat (Reachable (Some [CHR ''a'', CHR 0x0D, CHR 0x0A, CHR ''b''])))
            (run_tail_on (Reachable (Some [CHR ''a'', CHR 0x0D, CHR 0x0A, CHR ''b''])))
            collector0)) pi_source = [CHR ''a'', CHR 0x0A, CHR ''b'']
   \<and> process_source pi_source (run_stat (Reachable (Some [CHR 0xFF])))
            (run_tail_on (Reachable (Some [CHR 0xFF]))) collector0
       = (Some UnicodeDecodeError, collector0)"
proof -
  have s3: "remote_stat_size (run_stat (Reachable (Some ''abc''))) = Inr (Some 3)"
    using remote_stat_size_reachable [of "''abc''"] by simp
  have s4: "remote_stat_size (run_stat (Reachable (Some [CHR ''a'', CHR 0x0D, CHR 0x0A, CHR ''b''])))
       = Inr (Some 4)"
    using remote_stat_size_reachable [of "[CHR ''a'', CHR 0x0D, CHR 0x0A, CHR ''b'']"] by simp
  have s1: "remote_stat_size (run_stat (Reachable (Some [CHR 0xFF]))) = Inr (Some 1)"
    using remote_stat_size_reachable [of "[CHR 0xFF]"] by simp
  have f4: "sftp_read_range (run_tail_on (Reachable (Some [CHR ''a'', CHR 0x0D, CHR 0x0A, CHR ''b''])))
              (effective_offset 4 (stored_offset collector0 pi_source))
            = Inr (Some [CHR ''a'', CHR 0x0A, CHR ''b''])"
  proof -
    have "run (Exited 0 [CHR ''a'', CHR 0x0D, CHR 0x0A, CHR ''b''])
            = Inr (Completed 0 (map of_char [CHR ''a'', CHR 0x0A, CHR ''b'']))"
      by (simp add: run_def decode_utf8.simps(2))
    moreover have "encode_utf8 (map of_char [CHR ''a'', CHR 0x0A, CHR ''b''])
                     = [CHR ''a'', CHR 0x0A, CHR ''b'']"
      by (rule encode_utf8_ascii) simp
    ultimately show ?thesis
      by (simp add: sftp_read_range_def run_tail_on_def effective_offset_def)
  qed
  have f1: "sftp_read_range (run_tail_on (Reachable (Some [CHR 0xFF])))
              (effective_offset 1 (stored_offset collector0 pi_source)) = Inl UnicodeDecodeError"
    by (simp add: sftp_read_range_def run_tail_on_def run_def decode_utf8.simps(2)
        effective_offset_def)
  have n4: "4 \<noteq> effective_offset 4 (stored_offset collector0 pi_source)"
    by (simp add: effective_offset_def)
  have n1: "1 \<noteq> effective_offset 1 (stored_offset collector0 pi_source)"
    by (simp add: effective_offset_def)
  note v4 = process_source_ok [OF s4 n4 f4]
  note v1 = process_source_fetch_raises [OF s1 n1 f1]
  show ?thesis
    using s3 s4 v1
    by (simp add: first_visit [of "''abc''" "''abcde''" pi_source] v4)
qed

subsection \<open>Truncation\<close>

text \<open>
  C5, as the source has it. A source is visited with a remote size \<open>S\<close> that is positive and
  below its stored offset. The offset the visit works with is 0, so the fetch starts at the
  first byte: a successful fetch appends all the bytes it returned and stores the offset
  \<open>S\<close>, a failed one changes nothing. When the remote file is the same for the size query
  and for the fetch and is valid UTF-8 without a carriage return, the whole file is
  appended as it is and the mirror grows by \<open>S\<close>. After a failed fetch the stored offset
  and the mirror are as before, so the next visit that finds such a file, still shorter
  than the stored offset, appends the whole of it.
\<close>

theorem truncation_refetches_from_start:
  assumes stat: "remote_stat_size stat_result = Inr (Some S)"
    and lt: "S < stored_offset st src" and pos: "0 < S"
  shows
   "effective_offset S (stored_offset st src) = 0
    \<and> (\<forall>bytes. sftp_read_range run_tail 0 = Inr (Some bytes) \<longrightarrow>
          fst (process_source src stat_result run_tail st) = None
          \<and> stored_offset (snd (process_source src stat_result run_tail st)) src = S
          \<and> mirror (snd (process_source src stat_result run_tail st)) src = mirror st src @ bytes)
    \<and> (sftp_read_range run_tail 0 = Inr None \<longrightarrow>
          process_source src stat_result run_tail st = (None, log_status src (Fetch_failed S 0) st))
    \<and> (stat_result = run_stat (Reachable (Some remote))
          \<and> run_tail = run_tail_on (Reachable (Some remote)) \<and> plain_utf8 remote \<longrightarrow>
         mirror (snd (process_source src stat_result run_tail st)) src = mirror st src @ remote
         \<and> int (length (mirror (snd (process_source src stat_result run_tail st)) src))
             = int (length (mirror st src)) + S)
    \<and> (sftp_read_range run_tail 0 = Inr None \<and> later \<noteq> []
          \<and> int (length later) < stored_offset st src \<and> plain_utf8 later \<longrightarrow>
         stored_offset (snd (process_source src stat_result run_tail st)) src = stored_offset st src
         \<and> mirror (snd (process_source src stat_result run_tail st)) src = mirror st src
         \<and> mirror (snd (process_source src (run_stat (Reachable (Some later)))
                     (run_tail_on (Reachable (Some later)))
                     (snd (process_source src stat_result run_tail st)))) src
             = mirror st src @ later)"
proof -
  have eff: "effective_offset S (stored_offset st src) = 0"
    using lt by (simp add: effective_offset_def)
  have ne: "S \<noteq> effective_offset S (stored_offset st src)" using eff pos by simp
  have B: "\<forall>bytes. sftp_read_range run_tail 0 = Inr (Some bytes) \<longrightarrow>
          fst (process_source src stat_result run_tail st) = None
          \<and> stored_offset (snd (process_source src stat_result run_tail st)) src = S
          \<and> mirror (snd (process_source src stat_result run_tail st)) src = mirror st src @ bytes"
  proof (intro allI impI)
    fix bytes
    assume f: "sftp_read_range run_tail 0 = Inr (Some bytes)"
    from process_source_ok [OF stat ne, of run_tail bytes] f eff
    have r: "process_source src stat_result run_tail st =
     (None, \<lparr>offsets = (offsets st)(name src \<mapsto> S),
             offsets_file = Some ((offsets st)(name src \<mapsto> S)),
             files = (files st)(local_out src \<mapsto> mirror st src @ bytes, local_tmp src := None),
             status_log = status_log st @
               [\<lparr>st_source = name src, st_host = host src, st_status = Ok_appended (length bytes) S\<rparr>]\<rparr>)"
      by simp
    show "fst (process_source src stat_result run_tail st) = None
          \<and> stored_offset (snd (process_source src stat_result run_tail st)) src = S
          \<and> mirror (snd (process_source src stat_result run_tail st)) src = mirror st src @ bytes"
      by (simp add: r)
  qed
  have F: "sftp_read_range run_tail 0 = Inr None \<longrightarrow>
          process_source src stat_result run_tail st = (None, log_status src (Fetch_failed S 0) st)"
  proof
    assume f: "sftp_read_range run_tail 0 = Inr None"
    from process_source_fetch_failed [OF stat ne, of run_tail] f eff
    show "process_source src stat_result run_tail st = (None, log_status src (Fetch_failed S 0) st)"
      by simp
  qed
  have C: "stat_result = run_stat (Reachable (Some remote))
          \<and> run_tail = run_tail_on (Reachable (Some remote)) \<and> plain_utf8 remote \<longrightarrow>
         mirror (snd (process_source src stat_result run_tail st)) src = mirror st src @ remote
         \<and> int (length (mirror (snd (process_source src stat_result run_tail st)) src))
             = int (length (mirror st src)) + S"
  proof
    assume h: "stat_result = run_stat (Reachable (Some remote))
          \<and> run_tail = run_tail_on (Reachable (Some remote)) \<and> plain_utf8 remote"
    then have "remote_stat_size stat_result = Inr (Some (int (length remote)))"
      by (simp only: remote_stat_size_reachable)
    with stat have S: "S = int (length remote)" by simp
    have f: "sftp_read_range run_tail 0 = Inr (Some remote)"
      using h sftp_read_range_reachable [of 0 remote] by simp
    from B f S
    show "mirror (snd (process_source src stat_result run_tail st)) src = mirror st src @ remote
         \<and> int (length (mirror (snd (process_source src stat_result run_tail st)) src))
             = int (length (mirror st src)) + S"
      by simp
  qed
  have N: "sftp_read_range run_tail 0 = Inr None \<and> later \<noteq> []
          \<and> int (length later) < stored_offset st src \<and> plain_utf8 later \<longrightarrow>
         stored_offset (snd (process_source src stat_result run_tail st)) src = stored_offset st src
         \<and> mirror (snd (process_source src stat_result run_tail st)) src = mirror st src
         \<and> mirror (snd (process_source src (run_stat (Reachable (Some later)))
                     (run_tail_on (Reachable (Some later)))
                     (snd (process_source src stat_result run_tail st)))) src
             = mirror st src @ later"
  proof
    assume h: "sftp_read_range run_tail 0 = Inr None \<and> later \<noteq> []
          \<and> int (length later) < stored_offset st src \<and> plain_utf8 later"
    with F have r: "process_source src stat_result run_tail st
                      = (None, log_status src (Fetch_failed S 0) st)"
      by simp
    have l: "int (length later) < stored_offset (log_status src (Fetch_failed S 0) st) src"
      using h by simp
    have n: "later \<noteq> []" and p: "plain_utf8 later" using h by simp_all
    show "stored_offset (snd (process_source src stat_result run_tail st)) src = stored_offset st src
         \<and> mirror (snd (process_source src stat_result run_tail st)) src = mirror st src
         \<and> mirror (snd (process_source src (run_stat (Reachable (Some later)))
                     (run_tail_on (Reachable (Some later)))
                     (snd (process_source src stat_result run_tail st)))) src
             = mirror st src @ later"
      using refetch_after_shrink [OF l n p] by (simp add: r)
  qed
  from eff B F C N show ?thesis by (intro conjI)
qed

text \<open>Ten bytes are mirrored and the remote file now has the three bytes \<open>abc\<close>: the visit
  appends all three. When the host cannot be reached for the fetch, nothing changes, and the
  next visit, finding the four bytes \<open>abcd\<close>, appends all four.\<close>

theorem truncation_refetches_from_start_witness:
  "effective_offset 3 (stored_offset (collector_at pi_source 10 ''0123456789'') pi_source) = 0
   \<and> mirror (snd (process_source pi_source (run_stat (Reachable (Some ''abc'')))
         (run_tail_on (Reachable (Some ''abc''))) (collector_at pi_source 10 ''0123456789'')))
       pi_source = ''0123456789abc''
   \<and> process_source pi_source (run_stat (Reachable (Some ''abc''))) (run_tail_on Unreachable)
         (collector_at pi_source 10 ''0123456789'')
       = (None, log_status pi_source (Fetch_failed 3 0) (collector_at pi_source 10 ''0123456789''))
   \<and> mirror (snd (process_source pi_source (run_stat (Reachable (Some ''abcd'')))
         (run_tail_on (Reachable (Some ''abcd'')))
         (snd (process_source pi_source (run_stat (Reachable (Some ''abc'')))
            (run_tail_on Unreachable) (collector_at pi_source 10 ''0123456789'')))))
       pi_source = ''0123456789abcd''"
proof -
  have stat: "remote_stat_size (run_stat (Reachable (Some ''abc''))) = Inr (Some 3)"
    using remote_stat_size_reachable [of "''abc''"] by simp
  have lt: "3 < stored_offset (collector_at pi_source 10 ''0123456789'') pi_source"
    by simp
  have pos: "(0::int) < 3" by simp
  have u: "sftp_read_range (run_tail_on Unreachable) 0 = Inr None"
    by (simp add: sftp_read_range_def)
  have p: "plain_utf8 ''abcd''" by (simp add: plain_utf8_ascii)
  note a = truncation_refetches_from_start [OF stat lt pos,
            where run_tail = "run_tail_on (Reachable (Some ''abc''))" and remote = "''abc''"]
  note b = truncation_refetches_from_start [OF stat lt pos,
            where run_tail = "run_tail_on Unreachable" and later = "''abcd''"]
  have c1: "effective_offset 3 (stored_offset (collector_at pi_source 10 ''0123456789'') pi_source) = 0"
    using a by simp
  have c2: "mirror (snd (process_source pi_source (run_stat (Reachable (Some ''abc'')))
         (run_tail_on (Reachable (Some ''abc''))) (collector_at pi_source 10 ''0123456789'')))
       pi_source = ''0123456789abc''"
    using a by simp
  have c3: "process_source pi_source (run_stat (Reachable (Some ''abc''))) (run_tail_on Unreachable)
         (collector_at pi_source 10 ''0123456789'')
       = (None, log_status pi_source (Fetch_failed 3 0) (collector_at pi_source 10 ''0123456789''))"
    using b u by simp
  have c4: "mirror (snd (process_source pi_source (run_stat (Reachable (Some ''abcd'')))
         (run_tail_on (Reachable (Some ''abcd'')))
         (snd (process_source pi_source (run_stat (Reachable (Some ''abc'')))
            (run_tail_on Unreachable) (collector_at pi_source 10 ''0123456789'')))))
       pi_source = ''0123456789abcd''"
  proof -
    have h: "sftp_read_range (run_tail_on Unreachable) 0 = Inr None \<and> ''abcd'' \<noteq> []
          \<and> int (length ''abcd'') < stored_offset (collector_at pi_source 10 ''0123456789'') pi_source
          \<and> plain_utf8 ''abcd''"
      using u p by simp
    note n = b [THEN conjunct2, THEN conjunct2, THEN conjunct2, THEN conjunct2, THEN mp, OF h,
                THEN conjunct2, THEN conjunct2]
    show ?thesis
      unfolding n by simp
  qed
  from c1 c2 c3 c4 show ?thesis by (intro conjI)
qed


text \<open>The claim as it stands fails in two ways. Ten bytes are mirrored, the size query sees
  three bytes and the file has five when \<^verbatim>\<open>tail\<close> runs: the mirror grows by 5. And the reset
  is not stored: when the remote file is empty the visit fetches nothing and keeps the
  offset 10, and the next visit, finding twelve bytes, appends only the last two.\<close>

theorem truncation_growth_counterexample:
  "remote_stat_size (run_stat (Reachable (Some ''abc''))) = Inr (Some 3)
   \<and> stored_offset (collector_at pi_source 10 ''0123456789'') pi_source = 10
   \<and> fst (process_source pi_source (run_stat (Reachable (Some ''abc'')))
            (run_tail_on (Reachable (Some ''abcde''))) (collector_at pi_source 10 ''0123456789'')) = None
   \<and> mirror (snd (process_source pi_source (run_stat (Reachable (Some ''abc'')))
            (run_tail_on (Reachable (Some ''abcde''))) (collector_at pi_source 10 ''0123456789'')))
        pi_source = ''0123456789abcde''
   \<and> int (length (mirror (snd (process_source pi_source (run_stat (Reachable (Some ''abc'')))
            (run_tail_on (Reachable (Some ''abcde''))) (collector_at pi_source 10 ''0123456789'')))
        pi_source))
       \<noteq> int (length (mirror (collector_at pi_source 10 ''0123456789'') pi_source)) + 3
   \<and> remote_stat_size (run_stat (Reachable (Some []))) = Inr (Some 0)
   \<and> stored_offset (snd (process_source pi_source (run_stat (Reachable (Some [])))
            (run_tail_on (Reachable (Some []))) (collector_at pi_source 10 ''0123456789'')))
        pi_source = 10
   \<and> mirror (snd (process_source pi_source (run_stat (Reachable (Some ''ABCDEFGHIJKL'')))
            (run_tail_on (Reachable (Some ''ABCDEFGHIJKL'')))
            (snd (process_source pi_source (run_stat (Reachable (Some [])))
               (run_tail_on (Reachable (Some []))) (collector_at pi_source 10 ''0123456789'')))))
        pi_source = ''0123456789KL''"
proof -
  have s3: "remote_stat_size (run_stat (Reachable (Some ''abc''))) = Inr (Some 3)"
    using remote_stat_size_reachable [of "''abc''"] by simp
  have s0: "remote_stat_size (run_stat (Reachable (Some []))) = Inr (Some 0)"
    using remote_stat_size_reachable [of "[]"] by simp
  have e0: "0 = effective_offset 0 (stored_offset (collector_at pi_source 10 ''0123456789'') pi_source)"
    by (simp add: effective_offset_def)
  have v0: "process_source pi_source (run_stat (Reachable (Some [])))
            (run_tail_on (Reachable (Some []))) (collector_at pi_source 10 ''0123456789'')
          = (None, log_status pi_source (No_change 0) (collector_at pi_source 10 ''0123456789''))"
    by (rule process_source_no_change [OF s0 e0])
  have p: "plain_utf8 ''KL''" "plain_utf8 ''abcde''" by (simp_all add: plain_utf8_ascii)
  have v12: "mirror (snd (process_source pi_source (run_stat (Reachable (Some ''ABCDEFGHIJKL'')))
            (run_tail_on (Reachable (Some ''ABCDEFGHIJKL'')))
            (log_status pi_source (No_change 0) (collector_at pi_source 10 ''0123456789''))))
        pi_source = ''0123456789KL''"
    using p by (simp add: visit_reachable [of "''ABCDEFGHIJKL''"
          "log_status pi_source (No_change 0) (collector_at pi_source 10 ''0123456789'')"
          pi_source "''ABCDEFGHIJKL''"] effective_offset_def)
  show ?thesis
    using s3 s0 v12 p
    by (simp add: v0 visit_reachable [of "''abc''" "collector_at pi_source 10 ''0123456789''" pi_source "''abcde''"]
        effective_offset_def)
qed

subsection \<open>Fetch failure and a file that is gone\<close>

text \<open>
  C9, as the source has it. A range-read command that exits with a non-zero code, as \<^verbatim>\<open>ssh\<close>
  does on an unreachable host, is a fetch failure: the visit records \<open>fetch_failed\<close> and
  changes neither the offsets nor any file. When the remote file is absent at fetch time the
  fetch is an empty, successful result; the visit then appends nothing to the mirror and
  stores as offset the size \<open>S\<close> that the size query returned.
\<close>

theorem fetch_failure_and_absent_file:
  "(run_tail (off + 1) = Inr (Completed rc out) \<and> rc \<noteq> 0 \<longrightarrow>
      sftp_read_range run_tail off = Inr None)
   \<and> sftp_read_range (run_tail_on Unreachable) off = Inr None
   \<and> sftp_read_range (run_tail_on (Reachable None)) off = Inr (Some [])
   \<and> (remote_stat_size stat_result = Inr (Some S)
        \<and> S \<noteq> effective_offset S (stored_offset st src) \<longrightarrow>
        (sftp_read_range run_tail (effective_offset S (stored_offset st src)) = Inr None \<longrightarrow>
           process_source src stat_result run_tail st =
             (None, log_status src (Fetch_failed S (effective_offset S (stored_offset st src))) st)
           \<and> offsets (snd (process_source src stat_result run_tail st)) = offsets st
           \<and> files (snd (process_source src stat_result run_tail st)) = files st)
        \<and> fst (process_source src stat_result (run_tail_on (Reachable None)) st) = None
        \<and> stored_offset (snd (process_source src stat_result (run_tail_on (Reachable None)) st)) src = S
        \<and> mirror (snd (process_source src stat_result (run_tail_on (Reachable None)) st)) src
            = mirror st src)"
proof (intro conjI impI)
  assume "run_tail (off + 1) = Inr (Completed rc out) \<and> rc \<noteq> 0"
  then show "sftp_read_range run_tail off = Inr None"
    by (simp add: sftp_read_range_nonzero)
next
  show "sftp_read_range (run_tail_on Unreachable) off = Inr None"
    by (simp add: sftp_read_range_def)
next
  show "sftp_read_range (run_tail_on (Reachable None)) off = Inr (Some [])"
    by (rule sftp_read_range_absent)
next
  assume h: "remote_stat_size stat_result = Inr (Some S)
        \<and> S \<noteq> effective_offset S (stored_offset st src)"
    and f: "sftp_read_range run_tail (effective_offset S (stored_offset st src)) = Inr None"
  from h have stat: "remote_stat_size stat_result = Inr (Some S)"
    and ne: "S \<noteq> effective_offset S (stored_offset st src)" by simp_all
  show r: "process_source src stat_result run_tail st =
             (None, log_status src (Fetch_failed S (effective_offset S (stored_offset st src))) st)"
    by (rule process_source_fetch_failed [OF stat ne f])
  show "offsets (snd (process_source src stat_result run_tail st)) = offsets st"
    by (simp add: r)
  show "files (snd (process_source src stat_result run_tail st)) = files st"
    by (simp add: r)
next
  assume h: "remote_stat_size stat_result = Inr (Some S)
        \<and> S \<noteq> effective_offset S (stored_offset st src)"
  from h have stat: "remote_stat_size stat_result = Inr (Some S)"
    and ne: "S \<noteq> effective_offset S (stored_offset st src)" by simp_all
  note r = process_source_ok [OF stat ne sftp_read_range_absent]
  show "fst (process_source src stat_result (run_tail_on (Reachable None)) st) = None"
    by (simp add: r)
  show "stored_offset (snd (process_source src stat_result (run_tail_on (Reachable None)) st)) src = S"
    by (simp add: r)
  show "mirror (snd (process_source src stat_result (run_tail_on (Reachable None)) st)) src
            = mirror st src"
    by (simp add: r)
qed

text \<open>An unreachable host at fetch time, and a file of three bytes that is gone when
  \<^verbatim>\<open>tail\<close> runs.\<close>

theorem fetch_failure_and_absent_file_witness:
  "sftp_read_range (run_tail_on Unreachable) 0 = Inr None
   \<and> process_source pi_source (run_stat (Reachable (Some ''abc''))) (run_tail_on Unreachable) collector0
       = (None, log_status pi_source (Fetch_failed 3 0) collector0)
   \<and> stored_offset (snd (process_source pi_source (run_stat (Reachable (Some ''abc'')))
        (run_tail_on (Reachable None)) (collector_at pi_source 1 ''a''))) pi_source = 3
   \<and> mirror (snd (process_source pi_source (run_stat (Reachable (Some ''abc'')))
        (run_tail_on (Reachable None)) (collector_at pi_source 1 ''a''))) pi_source = ''a''"
proof -
  have stat: "remote_stat_size (run_stat (Reachable (Some ''abc''))) = Inr (Some 3)"
    using remote_stat_size_reachable [of "''abc''"] by simp
  have u: "run_tail_on Unreachable (0 + 1) = Inr (Completed 255 []) \<and> (255::int) \<noteq> 0"
    by simp
  show ?thesis
    using fetch_failure_and_absent_file [of "run_tail_on Unreachable" 0 255 "[]"
            "run_stat (Reachable (Some ''abc''))" 3 collector0 pi_source]
          fetch_failure_and_absent_file [of "run_tail_on Unreachable" 0 255 "[]"
            "run_stat (Reachable (Some ''abc''))" 3 "collector_at pi_source 1 ''a''" pi_source]
          stat u
    by (simp add: effective_offset_def)
qed

text \<open>The offset is not reset to 0 in that case: with nothing mirrored and a size of 3, the
  stored offset becomes 3 although no byte was appended.\<close>

theorem absent_file_offset_counterexample:
  "remote_stat_size (run_stat (Reachable (Some ''abc''))) = Inr (Some 3)
   \<and> sftp_read_range (run_tail_on (Reachable None)) 0 = Inr (Some [])
   \<and> fst (process_source pi_source (run_stat (Reachable (Some ''abc'')))
        (run_tail_on (Reachable None)) collector0) = None
   \<and> stored_offset (snd (process_source pi_source (run_stat (Reachable (Some ''abc'')))
        (run_tail_on (Reachable None)) collector0)) pi_source = 3
   \<and> stored_offset (snd (process_source pi_source (run_stat (Reachable (Some ''abc'')))
        (run_tail_on (Reachable None)) collector0)) pi_source \<noteq> 0
   \<and> mirror (snd (process_source pi_source (run_stat (Reachable (Some ''abc'')))
        (run_tail_on (Reachable None)) collector0)) pi_source = []"
proof -
  have "remote_stat_size (run_stat (Reachable (Some ''abc''))) = Inr (Some 3)"
    using remote_stat_size_reachable [of "''abc''"] by simp
  then show ?thesis
    by (simp add: visit_absent_at_fetch [of "''abc''" collector0 pi_source]
        effective_offset_def sftp_read_range_absent)
qed

subsection \<open>Timeouts\<close>

text \<open>
  C4. A remote command that outlives the timeout of \<^verbatim>\<open>run\<close> raises \<^verbatim>\<open>TimeoutExpired\<close>,
  which nothing catches. When the size query of the first of two sources hangs, the cycle
  ends with that exception in an unchanged state: no status record is written, the second
  source is not visited, and the polling loop ends before its second cycle. The same happens
  when the fetch hangs. An unreachable host, whose command exits with a non-zero code, is
  recorded as \<open>unreachable_or_missing\<close> and the next source is visited.
\<close>

theorem timeout_terminates_collector:
  "cycle [(pi_source, run_stat Hung, run_tail_on Hung),
          (nas_source, run_stat (Reachable (Some ''abc'')), run_tail_on (Reachable (Some ''abc'')))]
     collector0 = (Some TimeoutExpired, collector0)
   \<and> poll_loop False
       [[(pi_source, run_stat Hung, run_tail_on Hung),
         (nas_source, run_stat (Reachable (Some ''abc'')), run_tail_on (Reachable (Some ''abc'')))],
        [(pi_source, run_stat (Reachable (Some ''abc'')), run_tail_on (Reachable (Some ''abc''))),
         (nas_source, run_stat (Reachable (Some ''abc'')), run_tail_on (Reachable (Some ''abc'')))]]
       collector0 = (Some TimeoutExpired, collector0, 0)
   \<and> process_source pi_source (run_stat (Reachable (Some ''abc''))) (run_tail_on Hung) collector0
       = (Some TimeoutExpired, collector0)
   \<and> fst (cycle [(pi_source, run_stat Unreachable, run_tail_on Unreachable),
                 (nas_source, run_stat (Reachable (Some ''abc'')), run_tail_on (Reachable (Some ''abc'')))]
            collector0) = None
   \<and> map st_status (status_log (snd (cycle
         [(pi_source, run_stat Unreachable, run_tail_on Unreachable),
          (nas_source, run_stat (Reachable (Some ''abc'')), run_tail_on (Reachable (Some ''abc'')))]
         collector0))) = [Unreachable_or_missing, Ok_appended 3 3]"
proof -
  have c1: "cycle [(pi_source, run_stat Hung, run_tail_on Hung),
          (nas_source, run_stat (Reachable (Some ''abc'')), run_tail_on (Reachable (Some ''abc'')))]
     collector0 = (Some TimeoutExpired, collector0)"
    by (rule cycle_stat_raises [OF remote_stat_size_hung])
  have stat: "remote_stat_size (run_stat (Reachable (Some ''abc''))) = Inr (Some 3)"
    using remote_stat_size_reachable [of "''abc''"] by simp
  have ne: "3 \<noteq> effective_offset 3 (stored_offset collector0 pi_source)"
    by (simp add: effective_offset_def)
  have p: "process_source pi_source (run_stat (Reachable (Some ''abc''))) (run_tail_on Hung) collector0
       = (Some TimeoutExpired, collector0)"
    by (rule process_source_fetch_raises [OF stat ne sftp_read_range_hung])
  have u: "process_source pi_source (run_stat Unreachable) (run_tail_on Unreachable) collector0
       = (None, log_status pi_source Unreachable_or_missing collector0)"
    by (rule process_source_unreachable [OF remote_stat_size_unreachable])
  have ne2: "int (length ''abc'') \<noteq> effective_offset (int (length ''abc''))
               (stored_offset (log_status pi_source Unreachable_or_missing collector0) nas_source)"
    by (simp add: effective_offset_def)
  have z: "0 \<le> effective_offset (int (length ''abc''))
               (stored_offset (log_status pi_source Unreachable_or_missing collector0) nas_source)"
    by (simp add: effective_offset_def)
  have pu: "plain_utf8 (drop (nat (effective_offset (int (length ''abc''))
               (stored_offset (log_status pi_source Unreachable_or_missing collector0) nas_source)))
               ''abc'')"
    by (simp add: effective_offset_def)
  note v = visit_reachable [OF ne2 z pu]
  have pl: "poll_loop False
       [[(pi_source, run_stat Hung, run_tail_on Hung),
         (nas_source, run_stat (Reachable (Some ''abc'')), run_tail_on (Reachable (Some ''abc'')))],
        [(pi_source, run_stat (Reachable (Some ''abc'')), run_tail_on (Reachable (Some ''abc''))),
         (nas_source, run_stat (Reachable (Some ''abc'')), run_tail_on (Reachable (Some ''abc'')))]]
       collector0 = (Some TimeoutExpired, collector0, 0)"
    by (rule poll_loop_cycle_raises [OF c1])
  have c2: "cycle [(pi_source, run_stat Unreachable, run_tail_on Unreachable),
                 (nas_source, run_stat (Reachable (Some ''abc'')), run_tail_on (Reachable (Some ''abc'')))]
            collector0 = (None, snd (process_source nas_source (run_stat (Reachable (Some ''abc'')))
                 (run_tail_on (Reachable (Some ''abc'')))
                 (log_status pi_source Unreachable_or_missing collector0)))"
    by (simp add: u v)
  have f: "fst (cycle [(pi_source, run_stat Unreachable, run_tail_on Unreachable),
                 (nas_source, run_stat (Reachable (Some ''abc'')), run_tail_on (Reachable (Some ''abc'')))]
            collector0) = None"
    by (simp only: c2 fst_conv)
  have l: "map st_status (status_log (snd (cycle
         [(pi_source, run_stat Unreachable, run_tail_on Unreachable),
          (nas_source, run_stat (Reachable (Some ''abc'')), run_tail_on (Reachable (Some ''abc'')))]
         collector0))) = [Unreachable_or_missing, Ok_appended 3 3]"
    unfolding c2 v by (simp add: log_status_def collector0_def effective_offset_def stored_offset_def)
  from c1 pl p f l show ?thesis by (intro conjI)
qed

subsection \<open>Start-up\<close>

text \<open>
  C10. When \<^verbatim>\<open>collector_offsets.json\<close> is missing, or exists and cannot be parsed, the
  collector starts with the empty offsets dictionary and without failing: with at least one
  source it enters the polling loop. Every source then has the offset 0, and a first
  visit that finds a non-empty remote file of valid UTF-8 without a carriage return appends
  the whole file to the mirror.
\<close>

theorem unparsable_offsets_fall_back:
  assumes "offsets_text = None \<or> (\<exists>txt e. offsets_text = Some txt \<and> load_json txt = Inl e)"
  shows "startup_offsets load_json offsets_text = Map.empty
    \<and> (sources \<noteq> [] \<longrightarrow>
         collector_main load_json offsets_text outdir sources once cycles
           = poll_loop once cycles
               \<lparr>offsets = Map.empty, offsets_file = None, files = outdir, status_log = []\<rparr>)
    \<and> stored_offset \<lparr>offsets = startup_offsets load_json offsets_text, offsets_file = None,
                      files = outdir, status_log = []\<rparr> src = 0
    \<and> (remote \<noteq> [] \<and> plain_utf8 remote \<longrightarrow>
         mirror (snd (process_source src (run_stat (Reachable (Some remote)))
                  (run_tail_on (Reachable (Some remote)))
                  \<lparr>offsets = startup_offsets load_json offsets_text, offsets_file = None,
                    files = outdir, status_log = []\<rparr>)) src
           = mirror \<lparr>offsets = startup_offsets load_json offsets_text, offsets_file = None,
                      files = outdir, status_log = []\<rparr> src @ remote)"
proof -
  have e: "startup_offsets load_json offsets_text = Map.empty"
    using assms by (auto simp add: startup_offsets_missing startup_offsets_unparsable)
  have m: "sources \<noteq> [] \<longrightarrow>
         collector_main load_json offsets_text outdir sources once cycles
           = poll_loop once cycles
               \<lparr>offsets = Map.empty, offsets_file = None, files = outdir, status_log = []\<rparr>"
    using assms e by (auto simp add: collector_main_def)
  have z: "stored_offset \<lparr>offsets = startup_offsets load_json offsets_text, offsets_file = None,
                      files = outdir, status_log = []\<rparr> src = 0"
    by (simp add: stored_offset_empty e)
  have r: "remote \<noteq> [] \<and> plain_utf8 remote \<longrightarrow>
         mirror (snd (process_source src (run_stat (Reachable (Some remote)))
                  (run_tail_on (Reachable (Some remote)))
                  \<lparr>offsets = startup_offsets load_json offsets_text, offsets_file = None,
                    files = outdir, status_log = []\<rparr>)) src
           = mirror \<lparr>offsets = startup_offsets load_json offsets_text, offsets_file = None,
                      files = outdir, status_log = []\<rparr> src @ remote"
    using refetch_from_zero [OF z] by blast
  from e m z r show ?thesis by (intro conjI)
qed

text \<open>An offsets file that is not JSON, and no offsets file: the collector starts with no
  offsets, and the first visit of a source mirrors its whole file.\<close>

theorem unparsable_offsets_fall_back_witness:
  "startup_offsets load_empty_object (Some ''not json'') = Map.empty
   \<and> startup_offsets load_empty_object None = Map.empty
   \<and> collector_main load_empty_object (Some ''not json'') Map.empty [pi_source] True []
       = (None, collector0, 0)
   \<and> mirror (snd (process_source pi_source (run_stat (Reachable (Some ''abc'')))
         (run_tail_on (Reachable (Some ''abc'')))
         \<lparr>offsets = startup_offsets load_empty_object (Some ''not json''), offsets_file = None,
           files = Map.empty, status_log = []\<rparr>)) pi_source = ''abc''"
proof -
  have a: "Some ''not json'' = None
           \<or> (\<exists>txt e. Some ''not json'' = Some txt \<and> load_empty_object txt = Inl e)"
    by (simp add: load_empty_object_def)
  have b: "(None :: string option) = None
           \<or> (\<exists>txt e. (None :: string option) = Some txt \<and> load_empty_object txt = Inl e)"
    by simp
  note t = unparsable_offsets_fall_back [OF a, of "[pi_source]" Map.empty True "[]" pi_source "''abc''"]
  note u = unparsable_offsets_fall_back [OF b, of "[pi_source]" Map.empty True "[]" pi_source "''abc''"]
  have t1: "startup_offsets load_empty_object (Some ''not json'') = Map.empty"
    using t by (rule conjunct1)
  have u1: "startup_offsets load_empty_object None = Map.empty"
    using u by (rule conjunct1)
  have t2: "collector_main load_empty_object (Some ''not json'') Map.empty [pi_source] True []
       = (None, collector0, 0)"
    using t [THEN conjunct2, THEN conjunct1] by (simp add: collector0_def)
  have t4: "mirror (snd (process_source pi_source (run_stat (Reachable (Some ''abc'')))
         (run_tail_on (Reachable (Some ''abc'')))
         \<lparr>offsets = startup_offsets load_empty_object (Some ''not json''), offsets_file = None,
           files = Map.empty, status_log = []\<rparr>)) pi_source = ''abc''"
    using t [THEN conjunct2, THEN conjunct2, THEN conjunct2] by (simp add: mirror_def)
  from t1 u1 t2 t4 show ?thesis by (intro conjI)
qed

end
